theory Spec2Isabelle
  imports Main
begin

section \<open>AtomicWatcherAquarium: the watcher lifecycle supervisor of main.py\<close>

text \<open>
  The development embeds \<^verbatim>\<open>discover_watchers\<close>, \<^verbatim>\<open>main\<close> and the
  \<^verbatim>\<open>__main__\<close> block of main.py. Everything the program reads from outside (the
  configuration file, the watcher directory, what importing a module and calling its
  \<^verbatim>\<open>init\<close> does, what the notifier does, and the order in which tasks end or an
  interrupt arrives) is a field of an environment record; everything the program does
  to the outside (log lines, notifier calls, task creation and cancellation) is an
  event of a trace, in program order. \<^verbatim>\<open>setup_logging\<close> only configures the log
  sinks and is left out. The libraries are the ones main.py imports: loguru for the
  log calls, and asyncio as of Python 3.11 for tasks, \<^verbatim>\<open>gather\<close> and
  \<^verbatim>\<open>asyncio.run\<close>.
\<close>

subsection \<open>Strings\<close>

text \<open>\<^verbatim>\<open>s.startswith(p)\<close>.\<close>

definition startswith :: "string \<Rightarrow> string \<Rightarrow> bool" where
  "startswith s p = (take (length p) s = p)"

text \<open>
  \<^verbatim>\<open>Path.stem\<close>: the name without its last suffix. With i the index of the last dot,
  the suffix is cut only when \<^verbatim>\<open>0 < i < len(name) - 1\<close>.
\<close>

definition stem :: "string \<Rightarrow> string" where
  "stem name =
     (if CHR ''.'' \<notin> set name then name
      else let i = length name - length (takeWhile (\<lambda>c. c \<noteq> CHR ''.'') (rev name)) - 1
           in if 0 < i \<and> i < length name - 1 then take i name else name)"

text \<open>\<^verbatim>\<open>s.split(c)\<close> for a one-character separator: never empty.\<close>

fun split_on :: "char \<Rightarrow> string \<Rightarrow> string list" where
  "split_on c [] = [[]]"
| "split_on c (x # xs) =
     (if x = c then [] # split_on c xs
      else (case split_on c xs of
              [] \<Rightarrow> [[x]]
            | w # ws \<Rightarrow> (x # w) # ws))"

text \<open>
  \<^verbatim>\<open>s.replace(old, new)\<close> for a non-empty \<^verbatim>\<open>old\<close>: every non-overlapping occurrence,
  leftmost first. The counter is the number of characters of a matched occurrence
  still to be skipped.
\<close>

fun replace_from :: "string \<Rightarrow> string \<Rightarrow> nat \<Rightarrow> string \<Rightarrow> string" where
  "replace_from old new k [] = []"
| "replace_from old new k (x # xs) =
     (if 0 < k then replace_from old new (k - 1) xs
      else if startswith (x # xs) old then new @ replace_from old new (length old - 1) xs
      else x # replace_from old new 0 xs)"

definition replace :: "string \<Rightarrow> string \<Rightarrow> string \<Rightarrow> string" where
  "replace s old new = replace_from old new 0 s"

text \<open>\<^verbatim>\<open>sep.join(xs)\<close>.\<close>

fun join :: "string \<Rightarrow> string list \<Rightarrow> string" where
  "join sep [] = []"
| "join sep [x] = x"
| "join sep (x # y # ys) = x @ sep @ join sep (y # ys)"

text \<open>The decimal text of a natural number, as an f-string prints \<^verbatim>\<open>len(tasks)\<close>.\<close>

fun str_nat :: "nat \<Rightarrow> string" where
  "str_nat n =
     (if n < 10 then [''0123456789'' ! n]
      else str_nat (n div 10) @ [''0123456789'' ! (n mod 10)])"

declare str_nat.simps [simp del]

text \<open>The text holds an opening or a closing brace.\<close>

definition has_brace :: "string \<Rightarrow> bool" where
  "has_brace s = (CHR ''{'' \<in> set s \<or> CHR ''}'' \<in> set s)"

subsection \<open>Configuration documents\<close>

text \<open>
  What \<^verbatim>\<open>yaml.safe_load\<close> returns: null (also for an empty file), a scalar, a
  sequence or a mapping. Mapping keys are strings here: a key of another type never
  equals the string keys the program looks up. Floats and timestamps are not modelled.
\<close>

datatype yaml =
    YNull
  | YBool bool
  | YInt int
  | YStr string
  | YSeq "yaml list"
  | YMap "(string \<times> yaml) list"

fun type_name :: "yaml \<Rightarrow> string" where
  "type_name YNull = ''NoneType''"
| "type_name (YBool b) = ''bool''"
| "type_name (YInt i) = ''int''"
| "type_name (YStr s) = ''str''"
| "type_name (YSeq xs) = ''list''"
| "type_name (YMap m) = ''dict''"

text \<open>
  \<^verbatim>\<open>d.get(key, {})\<close>: the value under the key, the empty mapping when the key is
  absent; on anything but a mapping the attribute lookup raises AttributeError
  (\<open>Inl\<close> with the message).
\<close>

fun dict_get :: "yaml \<Rightarrow> string \<Rightarrow> string + yaml" where
  "dict_get (YMap m) key = Inr (case map_of m key of Some v \<Rightarrow> v | None \<Rightarrow> YMap [])"
| "dict_get d key = Inl ([CHR 0x27] @ type_name d @ [CHR 0x27] @ '' object has no attribute '' @ [CHR 0x27] @ ''get'' @ [CHR 0x27])"

datatype config_file =
    Missing
  | Unreadable string
  | Document yaml

subsection \<open>Watcher modules and tasks\<close>

text \<open>
  How the coroutine of a watcher answers a cancellation: it unwinds with
  CancelledError, raises another error while unwinding, catches the cancellation and
  returns, or suppresses it and keeps running. The answer is given at once, and a
  task that keeps running answers every later cancellation in the same way.
\<close>

datatype cancel_response = Unwinds | CleanupRaises string | Swallows | Ignores

text \<open>
  What \<^verbatim>\<open>module.init(notifier, watcher_config)\<close> does: raise, return a falsy value,
  return a coroutine, or return a truthy value that is no coroutine (given by its
  \<^verbatim>\<open>repr\<close>), on which \<^verbatim>\<open>asyncio.create_task\<close> raises TypeError.
\<close>

datatype init_result =
    InitRaises string
  | InitFalsy
  | InitCoro cancel_response
  | InitOther string

text \<open>
  \<^verbatim>\<open>importlib.import_module(module_name)\<close> raises, or gives a module that has an
  \<^verbatim>\<open>init\<close> attribute or none. What an import or an \<^verbatim>\<open>init\<close> raises is of class
  Exception.
\<close>

datatype import_result =
    ImportRaises string
  | Imported "(yaml \<Rightarrow> init_result) option"

text \<open>A loaded module: \<^verbatim>\<open>module.__name__\<close> and its \<^verbatim>\<open>init\<close> attribute.\<close>

record module =
  mod_name :: string
  init :: "(yaml \<Rightarrow> init_result) option"

text \<open>An \<^verbatim>\<open>asyncio.Task\<close>: its name and the behaviour of its coroutine.\<close>

record task =
  task_name :: string
  on_cancel :: cancel_response

datatype tstate = Running | Completed | Failed | Cancelled

subsection \<open>The outside world and the trace\<close>

text \<open>
  A task ends by itself when its coroutine returns, raises an error of class
  Exception, or raises KeyboardInterrupt.
\<close>

datatype outcome = Returns | Raises string | Interrupts

text \<open>
  What happens while \<^verbatim>\<open>main\<close> is suspended, in order: the task with a given index
  in \<^verbatim>\<open>tasks\<close> ends by itself, or the process receives SIGINT (Ctrl+C).
\<close>

datatype wait_event = Ends nat outcome | Sigint

text \<open>
  The field \<open>str_format\<close> is \<^verbatim>\<open>message.format(exc_info=True)\<close> on a message that
  holds a brace: the text of the ValueError, IndexError or KeyError it raises
  (\<open>Inl\<close>), or the message with its replacement fields filled in.
\<close>

record env =
  here :: string
  config_yaml :: config_file
  notifier_init :: "yaml \<Rightarrow> string option"
  watchers_dir :: "string list option"
  import_module :: "string \<Rightarrow> import_result"
  str_format :: "string \<Rightarrow> string + string"
  send_raises :: "string option"
  close_raises :: "string option"
  schedule :: "wait_event list"

datatype level = INFO | WARNING | ERROR

text \<open>
  \<open>CancelRequested i\<close> is a call of \<^verbatim>\<open>task.cancel()\<close> by \<^verbatim>\<open>main\<close> itself (line
  161); \<open>TaskDone i s\<close> is the moment at which the task with index \<open>i\<close> becomes done,
  in the state \<open>s\<close>.
\<close>

datatype event =
    Log level string
  | NotifierInit yaml
  | InitCalled string yaml
  | TaskCreated string
  | Send string
  | AwaitGather
  | CancelRequested nat
  | AwaitGatherAll
  | TaskDone nat tstate
  | Close

datatype exn = CancelledError | Error string

text \<open>
  The ways in which the coroutine \<^verbatim>\<open>main\<close> ends: it returns, calls
  \<^verbatim>\<open>sys.exit\<close>, raises, stays suspended for ever, or is left suspended because
  \<^verbatim>\<open>asyncio.run\<close> is left with KeyboardInterrupt before it resumes. What the
  interpreter does with a coroutine that is still suspended when the process exits is
  not modelled.
\<close>

datatype result = Returned | Exited nat | Raised exn | NeverReturns | Abandoned

subsection \<open>Log calls that pass exc_info\<close>

text \<open>
  \<^verbatim>\<open>logger.error(message, exc_info=True)\<close>, the form of the log calls at lines 74,
  130 and 190. loguru applies \<^verbatim>\<open>message.format(*args, **kwargs)\<close> to the message of
  a log call that is given an argument or a keyword argument, here
  \<^verbatim>\<open>exc_info=True\<close>. A message without a brace is left as it is; on a message with
  a brace the format step raises (\<open>Inl\<close> with the text of the error, and nothing is
  logged) or changes the text. The other log calls of main.py pass the message alone,
  and loguru logs it as it is.
\<close>

definition log_exception :: "env \<Rightarrow> string \<Rightarrow> string + event" where
  "log_exception e message =
     (if has_brace message then
        (case str_format e message of
           Inl err \<Rightarrow> Inl err
         | Inr formatted \<Rightarrow> Inr (Log ERROR formatted))
      else Inr (Log ERROR message))"

subsection \<open>discover_watchers\<close>

text \<open>
  The body of the loop over \<^verbatim>\<open>watchers_dir.glob("*.py")\<close>, for one file name: the
  modules it appends, or the error that leaves \<^verbatim>\<open>discover_watchers\<close> when the log
  call inside the \<^verbatim>\<open>except\<close> handler raises.
\<close>

definition discover_file :: "env \<Rightarrow> string \<Rightarrow> (string + module list) \<times> event list" where
  "discover_file e file_name =
     (if startswith file_name ''_'' then (Inr [], [])
      else let module_name = ''watchers.'' @ stem file_name in
        (case import_module e module_name of
           ImportRaises msg \<Rightarrow>
             (case log_exception e (''Failed to load watcher '' @ module_name @ '': '' @ msg) of
                Inl err \<Rightarrow> (Inl err, [])
              | Inr logged \<Rightarrow> (Inr [], [logged]))
         | Imported i \<Rightarrow>
             (if i \<noteq> None
              then (Inr [\<lparr>mod_name = module_name, init = i\<rparr>],
                    [Log INFO (''Discovered watcher: '' @ module_name)])
              else (Inr [], [Log WARNING (''Module '' @ module_name @ '' has no init() function'')]))))"

fun discover_loop :: "env \<Rightarrow> string list \<Rightarrow> (string + module list) \<times> event list" where
  "discover_loop e [] = (Inr [], [])"
| "discover_loop e (f # fs) =
     (case discover_file e f of
        (Inl err, evs) \<Rightarrow> (Inl err, evs)
      | (Inr ms, evs) \<Rightarrow>
          (case discover_loop e fs of
             (Inl err, evs') \<Rightarrow> (Inl err, evs @ evs')
           | (Inr ms', evs') \<Rightarrow> (Inr (ms @ ms'), evs @ evs')))"

definition discover_watchers :: "env \<Rightarrow> (string + module list) \<times> event list" where
  "discover_watchers e =
     (case watchers_dir e of
        None \<Rightarrow> (Inr [], [Log ERROR (''Watchers directory not found: '' @ here e @ ''/watchers'')])
      | Some files \<Rightarrow> discover_loop e files)"

subsection \<open>main: starting the watchers\<close>

text \<open>\<^verbatim>\<open>module.__name__.split(".")[-1]\<close>, the name of the unit.\<close>

definition unit_name :: "module \<Rightarrow> string" where
  "unit_name m = last (split_on CHR ''.'' (mod_name m))"

text \<open>
  The \<^verbatim>\<open>except Exception\<close> handler of the start loop (line 130): the failure is
  logged and the loop goes on, or the log call raises and its error leaves \<^verbatim>\<open>main\<close>.
\<close>

definition start_failed :: "env \<Rightarrow> module \<Rightarrow> string \<Rightarrow> (string + task list) \<times> event list" where
  "start_failed e m msg =
     (case log_exception e (''Failed to initialize '' @ mod_name m @ '': '' @ msg) of
        Inl err \<Rightarrow> (Inl err, [])
      | Inr logged \<Rightarrow> (Inr [], [logged]))"

text \<open>
  The body of \<^verbatim>\<open>for module in watcher_modules\<close> (its \<^verbatim>\<open>try\<close> block and its
  handler), for one module: the tasks it appends and what it emits, or the error that
  leaves \<^verbatim>\<open>main\<close>.
\<close>

definition start_module :: "env \<Rightarrow> yaml \<Rightarrow> module \<Rightarrow> (string + task list) \<times> event list" where
  "start_module e watchers_config m =
     (let module_name = unit_name m in
        (case dict_get watchers_config module_name of
           Inl msg \<Rightarrow> start_failed e m msg
         | Inr watcher_config \<Rightarrow>
             (case init m of
                None \<Rightarrow>
                  start_failed e m (''module '' @ [CHR 0x27] @ mod_name m @ [CHR 0x27]
                    @ '' has no attribute '' @ [CHR 0x27] @ ''init'' @ [CHR 0x27])
              | Some f \<Rightarrow>
                  (case f watcher_config of
                     InitRaises msg \<Rightarrow>
                       (case start_failed e m msg of
                          (r, evs) \<Rightarrow> (r, InitCalled (mod_name m) watcher_config # evs))
                   | InitFalsy \<Rightarrow> (Inr [], [InitCalled (mod_name m) watcher_config])
                   | InitOther shown \<Rightarrow>
                       (case start_failed e m (''a coroutine was expected, got '' @ shown) of
                          (r, evs) \<Rightarrow> (r, InitCalled (mod_name m) watcher_config # evs))
                   | InitCoro c \<Rightarrow>
                       (Inr [\<lparr>task_name = ''watcher_'' @ module_name, on_cancel = c\<rparr>],
                        [InitCalled (mod_name m) watcher_config,
                         TaskCreated (''watcher_'' @ module_name),
                         Log INFO (''Started watcher: '' @ module_name)])))))"

text \<open>
  The start loop: the error that ends it early, if any, the tasks created up to
  there, and what it emits.
\<close>

fun start_watchers :: "env \<Rightarrow> yaml \<Rightarrow> module list \<Rightarrow> string option \<times> task list \<times> event list" where
  "start_watchers e watchers_config [] = (None, [], [])"
| "start_watchers e watchers_config (m # ms) =
     (case start_module e watchers_config m of
        (Inl err, evs) \<Rightarrow> (Some err, [], evs)
      | (Inr ts, evs) \<Rightarrow>
          (case start_watchers e watchers_config ms of
             (r, ts', evs') \<Rightarrow> (r, ts @ ts', evs @ evs')))"

subsection \<open>main: the startup notification\<close>

definition active_watchers :: "task list \<Rightarrow> string list" where
  "active_watchers tasks = map (\<lambda>t. replace (task_name t) ''watcher_'' []) tasks"

definition bullet :: "string \<Rightarrow> string" where
  "bullet name = ''- '' @ [CHR 0x60] @ name @ [CHR 0x60]"

text \<open>The rocket of the heading is its four UTF-8 bytes.\<close>

definition startup_heading :: string where
  "startup_heading =
     ''# '' @ [CHR 0xF0, CHR 0x9F, CHR 0x9A, CHR 0x80] @ '' AtomicWatcherAquarium Started!''
     @ [CHR 0x0A, CHR 0x0A] @ ''System initialized successfully!''
     @ [CHR 0x0A, CHR 0x0A] @ ''## Active Watchers'' @ [CHR 0x0A, CHR 0x0A]"

definition startup_markdown :: "task list \<Rightarrow> string" where
  "startup_markdown tasks =
     startup_heading @ join [CHR 0x0A] (map bullet (active_watchers tasks))"

definition announce :: "task list \<Rightarrow> event list" where
  "announce tasks =
     [Log INFO (''Running '' @ str_nat (length tasks) @ '' watcher(s)...''),
      Log INFO ''Press Ctrl+C to stop...'',
      Send (startup_markdown tasks)]"

subsection \<open>The event loop: tasks, cancellation and interrupts\<close>

definition all_done :: "tstate list \<Rightarrow> bool" where
  "all_done sts = list_all (\<lambda>s. s \<noteq> Running) sts"

text \<open>The state a running task reaches when a cancellation is delivered to it.\<close>

fun respond :: "cancel_response \<Rightarrow> tstate" where
  "respond Unwinds = Cancelled"
| "respond (CleanupRaises msg) = Failed"
| "respond Swallows = Completed"
| "respond Ignores = Running"

text \<open>
  The running tasks take a cancellation, in the order of \<^verbatim>\<open>tasks\<close>: the new states,
  and the tasks that end by it. A task that ends on a cancellation does so in the turn
  of the event loop in which it takes it; no other task ends by itself and no SIGINT
  arrives within that turn.
\<close>

fun deliver :: "nat \<Rightarrow> task list \<Rightarrow> tstate list \<Rightarrow> tstate list \<times> event list" where
  "deliver i (t # ts) (s # sts) =
     (if s = Running then
        (respond (on_cancel t) # fst (deliver (Suc i) ts sts),
         (if respond (on_cancel t) = Running then []
          else [TaskDone i (respond (on_cancel t))]) @ snd (deliver (Suc i) ts sts))
      else (s # fst (deliver (Suc i) ts sts), snd (deliver (Suc i) ts sts)))"
| "deliver i ts sts = (sts, [])"

text \<open>
  How \<^verbatim>\<open>asyncio.run\<close> stands. It installs a SIGINT handler while it runs the main
  task: the first SIGINT cancels the main task (\<open>Serving\<close> becomes \<open>Signalled\<close>), a
  later one raises KeyboardInterrupt out of the event loop. Once KeyboardInterrupt
  has left the loop, from that handler or from a task that raised it, \<^verbatim>\<open>asyncio.run\<close>
  cancels every task that is not done, the main task among them, and runs the loop
  until they are done (\<open>Closing\<close>): it then raises the KeyboardInterrupt whatever the
  main task did, and a further KeyboardInterrupt ends it at once.
\<close>

datatype runner = Serving | Signalled | Closing

fun signalled :: "runner \<Rightarrow> runner" where
  "signalled Serving = Signalled"
| "signalled rn = Closing"

text \<open>
  The ways in which an \<^verbatim>\<open>await asyncio.gather(...)\<close> of \<^verbatim>\<open>main\<close> ends: it returns,
  raises the error of a task, raises the KeyboardInterrupt of a task, raises
  CancelledError, never ends, or is abandoned.
\<close>

datatype wait_result =
    WaitReturned
  | WaitRaised string
  | WaitInterrupted
  | WaitCancelled
  | WaitForever
  | WaitAbandoned

text \<open>
  Without \<^verbatim>\<open>return_exceptions\<close> the gathering future takes the exception of the
  first task that ends cancelled or with an error: among the running tasks that take
  a cancellation together, that is the first in the order of \<^verbatim>\<open>tasks\<close> that does
  not catch it.
\<close>

fun first_raised :: "task list \<Rightarrow> tstate list \<Rightarrow> wait_result option" where
  "first_raised (t # ts) (s # sts) =
     (if s = Running then
        (case on_cancel t of
           Unwinds \<Rightarrow> Some WaitCancelled
         | CleanupRaises msg \<Rightarrow> Some (WaitRaised msg)
         | _ \<Rightarrow> first_raised ts sts)
      else first_raised ts sts)"
| "first_raised ts sts = None"

text \<open>
  One event while \<^verbatim>\<open>main\<close> awaits a gathering future of which some task is still
  running. The wait goes on or stops; either way the event gives whether a
  cancellation of the gathering future is pending, how \<^verbatim>\<open>asyncio.run\<close> stands, the
  states of the tasks and the tasks that became done.

  \<^item> A task that returns, or raises under \<^verbatim>\<open>return_exceptions=True\<close>, is counted.
    Without \<^verbatim>\<open>return_exceptions\<close> the error of a task ends the wait at once, and
    the other tasks keep their state.
  \<^item> A task that raises KeyboardInterrupt stops the event loop, and \<^verbatim>\<open>asyncio.run\<close>
    cancels the main task and the running tasks. The gathering future has the
    KeyboardInterrupt before the cancellation reaches it, so that \<^verbatim>\<open>main\<close> resumes
    with KeyboardInterrupt, after the other tasks have taken their cancellation;
    under \<^verbatim>\<open>return_exceptions=True\<close> it holds no exception and the wait goes on,
    cancelled. When no other task is running, the cancellation of the main task finds
    nothing to pass on and \<^verbatim>\<open>main\<close> resumes with CancelledError.
  \<^item> SIGINT cancels the main task, by the handler or by the closing
    \<^verbatim>\<open>asyncio.run\<close>. The gathering future passes the cancellation on to the running
    tasks and \<^verbatim>\<open>main\<close> resumes when the future is done: without
    \<^verbatim>\<open>return_exceptions\<close> with the exception of the first task that ends cancelled
    or with an error, and otherwise with CancelledError once every task is done.
  \<^item> Once \<^verbatim>\<open>asyncio.run\<close> is closing, SIGINT or a task's KeyboardInterrupt ends it
    while \<^verbatim>\<open>main\<close> is suspended.
\<close>

datatype step =
    Goes bool runner "tstate list" "event list"
  | Stops wait_result runner "tstate list" "event list"

definition wait_step :: "bool \<Rightarrow> task list \<Rightarrow> bool \<Rightarrow> runner \<Rightarrow> tstate list \<Rightarrow> wait_event \<Rightarrow> step" where
  "wait_step return_exceptions tasks cancelling rn sts w =
     (case w of
        Ends i out \<Rightarrow>
          (if i < length sts \<and> sts ! i = Running then
             (case out of
                Returns \<Rightarrow> Goes cancelling rn (sts[i := Completed]) [TaskDone i Completed]
              | Raises msg \<Rightarrow>
                  (if return_exceptions
                   then Goes cancelling rn (sts[i := Failed]) [TaskDone i Failed]
                   else Stops (WaitRaised msg) rn (sts[i := Failed]) [TaskDone i Failed])
              | Interrupts \<Rightarrow>
                  (if rn = Closing
                   then Stops WaitAbandoned rn (sts[i := Failed]) [TaskDone i Failed]
                   else if all_done (sts[i := Failed])
                   then Stops WaitCancelled Closing (sts[i := Failed]) [TaskDone i Failed]
                   else if return_exceptions
                   then Goes True Closing (fst (deliver 0 tasks (sts[i := Failed])))
                          (TaskDone i Failed # snd (deliver 0 tasks (sts[i := Failed])))
                   else Stops WaitInterrupted Closing (fst (deliver 0 tasks (sts[i := Failed])))
                          (TaskDone i Failed # snd (deliver 0 tasks (sts[i := Failed])))))
           else Goes cancelling rn sts [])
      | Sigint \<Rightarrow>
          (if rn = Closing then Stops WaitAbandoned rn sts []
           else
             (case (if return_exceptions then None else first_raised tasks sts) of
                Some r \<Rightarrow>
                  Stops r (signalled rn) (fst (deliver 0 tasks sts)) (snd (deliver 0 tasks sts))
              | None \<Rightarrow>
                  Goes True (signalled rn) (fst (deliver 0 tasks sts)) (snd (deliver 0 tasks sts)))))"

text \<open>
  \<^verbatim>\<open>await asyncio.gather(*tasks, return_exceptions=...)\<close> over the events still to
  come. The wait ends once every task is done: it returns, or raises CancelledError
  when a cancellation of the gathering future is pending. When the events run out
  while a task is still running, the wait never ends. The result is the way the wait
  ended, how \<^verbatim>\<open>asyncio.run\<close> stands, the states of the tasks, the events emitted and
  the events that are still to come.
\<close>

fun gather :: "bool \<Rightarrow> task list \<Rightarrow> bool \<Rightarrow> runner \<Rightarrow> tstate list \<Rightarrow> wait_event list
    \<Rightarrow> wait_result \<times> runner \<times> tstate list \<times> event list \<times> wait_event list" where
  "gather return_exceptions tasks cancelling rn sts [] =
     (if all_done sts then (if cancelling then WaitCancelled else WaitReturned, rn, sts, [], [])
      else (WaitForever, rn, sts, [], []))"
| "gather return_exceptions tasks cancelling rn sts (w # ws) =
     (if all_done sts
      then (if cancelling then WaitCancelled else WaitReturned, rn, sts, [], w # ws)
      else
        (case wait_step return_exceptions tasks cancelling rn sts w of
           Stops r rn' sts' evs \<Rightarrow> (r, rn', sts', evs, ws)
         | Goes cancelling' rn' sts' evs \<Rightarrow>
             (case gather return_exceptions tasks cancelling' rn' sts' ws of
                (r, rn'', sts'', evs', rest) \<Rightarrow> (r, rn'', sts'', evs @ evs', rest))))"

text \<open>
  What \<^verbatim>\<open>main\<close> leaves to \<^verbatim>\<open>asyncio.run\<close> when it ends: how \<^verbatim>\<open>asyncio.run\<close>
  stands, the tasks created, their states, and the events still to come.
\<close>

record loop =
  runner_state :: runner
  created :: "task list"
  states :: "tstate list"
  upcoming :: "wait_event list"

subsection \<open>main: waiting and shutting down\<close>

text \<open>\<^verbatim>\<open>for task in tasks: if not task.done(): task.cancel()\<close>, from index \<open>i\<close> on.\<close>

fun cancel_all :: "nat \<Rightarrow> tstate list \<Rightarrow> event list" where
  "cancel_all i [] = []"
| "cancel_all i (s # sts) =
     (if s = Running then CancelRequested i # cancel_all (Suc i) sts
      else cancel_all (Suc i) sts)"

text \<open>
  The \<^verbatim>\<open>finally\<close> block. The tasks that \<^verbatim>\<open>main\<close> cancels take the cancellation
  when \<^verbatim>\<open>main\<close> is suspended in the second wait. The result is \<open>None\<close> when the
  block runs to its end, and otherwise the way it ends instead: the second wait never
  returns, is cancelled or is abandoned, or \<^verbatim>\<open>notifier.close()\<close> raises. Under
  \<^verbatim>\<open>return_exceptions=True\<close> the wait raises neither the error nor the
  KeyboardInterrupt of a task.
\<close>

definition shutdown :: "env \<Rightarrow> task list \<Rightarrow> runner \<Rightarrow> tstate list \<Rightarrow> wait_event list
    \<Rightarrow> result option \<times> event list \<times> loop" where
  "shutdown e tasks rn sts rest =
     (let evs = cancel_all 0 sts @ [AwaitGatherAll] @ snd (deliver 0 tasks sts) in
        (case gather True tasks False rn (fst (deliver 0 tasks sts)) rest of
           (r, rn', sts', gevs, rest') \<Rightarrow>
             (let lp = \<lparr>runner_state = rn', created = tasks, states = sts', upcoming = rest'\<rparr> in
                (case r of
                   WaitReturned \<Rightarrow>
                     (case close_raises e of
                        Some msg \<Rightarrow> (Some (Raised (Error msg)), evs @ gevs @ [Close], lp)
                      | None \<Rightarrow>
                          (None, evs @ gevs
                             @ [Close, Log INFO ''All watchers stopped. AWA terminated.''], lp))
                 | WaitCancelled \<Rightarrow> (Some (Raised CancelledError), evs @ gevs, lp)
                 | WaitForever \<Rightarrow> (Some NeverReturns, evs @ gevs, lp)
                 | WaitRaised msg \<Rightarrow> (Some (Raised (Error msg)), evs @ gevs, lp)
                 | _ \<Rightarrow> (Some Abandoned, evs @ gevs, lp)))))"

text \<open>
  Lines 136 to 169 of \<^verbatim>\<open>main\<close>, reached with a non-empty \<^verbatim>\<open>tasks\<close>: the two log
  lines and the startup notification (\<open>announce\<close>, up to the call of
  \<^verbatim>\<open>notifier.send\<close>), the \<^verbatim>\<open>try\<close> with its \<^verbatim>\<open>except KeyboardInterrupt\<close>, and the
  \<^verbatim>\<open>finally\<close> block; when the block runs to its end, the exception of the first
  wait that the handler did not catch is raised again. The created tasks first run
  when \<^verbatim>\<open>main\<close> is suspended or has ended, so all of them are running when the wait
  begins. What happens while \<^verbatim>\<open>main\<close> is suspended inside \<^verbatim>\<open>notifier.send\<close> or
  \<^verbatim>\<open>notifier.close\<close> is not modelled apart: a task that ends there is seen at the
  next wait, and SIGINT arrives at a wait.
\<close>

definition supervise :: "env \<Rightarrow> task list \<Rightarrow> result \<times> event list \<times> loop" where
  "supervise e tasks =
     (let evs0 = announce tasks in
        (case send_raises e of
           Some msg \<Rightarrow>
             (Raised (Error msg), evs0,
              \<lparr>runner_state = Serving, created = tasks,
               states = replicate (length tasks) Running, upcoming = schedule e\<rparr>)
         | None \<Rightarrow>
             (case gather False tasks False Serving (replicate (length tasks) Running) (schedule e) of
                (r, rn, sts, gevs, rest) \<Rightarrow>
                  (let evs1 = evs0 @ [Log INFO ''Startup notification sent'', AwaitGather] @ gevs;
                       lp = \<lparr>runner_state = rn, created = tasks, states = sts, upcoming = rest\<rparr>
                   in if r = WaitForever then (NeverReturns, evs1, lp)
                      else if r = WaitAbandoned then (Abandoned, evs1, lp)
                      else
                        (let evs2 = evs1
                               @ (if r = WaitInterrupted
                                  then [Log INFO ''Shutdown signal received, stopping watchers...'']
                                  else [])
                         in (case shutdown e tasks rn sts rest of
                               (Some res, fevs, lp') \<Rightarrow> (res, evs2 @ fevs, lp')
                             | (None, fevs, lp') \<Rightarrow>
                                 ((case r of
                                     WaitRaised msg \<Rightarrow> Raised (Error msg)
                                   | WaitCancelled \<Rightarrow> Raised CancelledError
                                   | _ \<Rightarrow> Returned),
                                  evs2 @ fevs, lp')))))))"

subsection \<open>main and the process entry\<close>

text \<open>A run of \<^verbatim>\<open>main\<close>: how it ends, what it emits, and what it leaves behind.\<close>

record run =
  result :: result
  trace :: "event list"
  left :: loop

definition no_tasks :: "env \<Rightarrow> loop" where
  "no_tasks e = \<lparr>runner_state = Serving, created = [], states = [], upcoming = schedule e\<rparr>"

definition main :: "env \<Rightarrow> run" where
  "main e =
     (case config_yaml e of
        Missing \<Rightarrow>
          \<lparr>result = Exited 1,
           trace = [Log ERROR ''config.yaml not found! Please create it from config.example.yaml''],
           left = no_tasks e\<rparr>
      | Unreadable msg \<Rightarrow>
          \<lparr>result = Exited 1, trace = [Log ERROR (''Failed to load config.yaml: '' @ msg)],
           left = no_tasks e\<rparr>
      | Document config \<Rightarrow>
          (let evs0 = [Log INFO ''AtomicWatcherAquarium starting''] in
             (case dict_get config ''notifier'' of
                Inl msg \<Rightarrow> \<lparr>result = Raised (Error msg), trace = evs0, left = no_tasks e\<rparr>
              | Inr notifier_config \<Rightarrow>
                  (case notifier_init e notifier_config of
                     Some msg \<Rightarrow>
                       \<lparr>result = Raised (Error msg), trace = evs0 @ [NotifierInit notifier_config],
                        left = no_tasks e\<rparr>
                   | None \<Rightarrow>
                       (let evs1 = evs0 @ [NotifierInit notifier_config] @ snd (discover_watchers e) in
                          (case fst (discover_watchers e) of
                             Inl err \<Rightarrow> \<lparr>result = Raised (Error err), trace = evs1, left = no_tasks e\<rparr>
                           | Inr watcher_modules \<Rightarrow>
                               if watcher_modules = [] then
                                 \<lparr>result = Returned, trace = evs1 @ [Log WARNING ''No watchers found!''],
                                  left = no_tasks e\<rparr>
                               else
                                 (case dict_get config ''watchers'' of
                                    Inl msg \<Rightarrow>
                                      \<lparr>result = Raised (Error msg), trace = evs1, left = no_tasks e\<rparr>
                                  | Inr watchers_config \<Rightarrow>
                                      (case start_watchers e watchers_config watcher_modules of
                                         (Some err, tasks, sevs) \<Rightarrow>
                                           \<lparr>result = Raised (Error err), trace = evs1 @ sevs,
                                            left = \<lparr>runner_state = Serving, created = tasks,
                                                    states = replicate (length tasks) Running,
                                                    upcoming = schedule e\<rparr>\<rparr>
                                       | (None, tasks, sevs) \<Rightarrow>
                                           if tasks = [] then
                                             \<lparr>result = Returned,
                                              trace = evs1 @ sevs @ [Log ERROR ''No watcher tasks started!''],
                                              left = no_tasks e\<rparr>
                                           else
                                             (case supervise e tasks of
                                                (r, evs, lp) \<Rightarrow>
                                                  \<lparr>result = r, trace = evs1 @ sevs @ evs,
                                                   left = lp\<rparr>)))))))))"

text \<open>
  What \<^verbatim>\<open>asyncio.run\<close> does when the main task has ended: it cancels the tasks that
  are not done and runs the event loop until they are, under
  \<^verbatim>\<open>gather(*to_cancel, return_exceptions=True)\<close>; SIGINT, or a task that raises
  KeyboardInterrupt, ends that wait with KeyboardInterrupt. \<^verbatim>\<open>asyncio.run\<close> takes
  the tasks from a set; here they take the cancellation in the order of \<^verbatim>\<open>tasks\<close>.
\<close>

definition close_loop :: "loop \<Rightarrow> wait_result \<times> event list" where
  "close_loop lp =
     (case gather True (created lp) False Closing
             (fst (deliver 0 (created lp) (states lp))) (upcoming lp) of
        (r, rn, sts, gevs, rest) \<Rightarrow> (r, snd (deliver 0 (created lp) (states lp)) @ gevs))"

text \<open>
  The \<^verbatim>\<open>__main__\<close> block: the exit status of the process (\<open>None\<close> when it never
  exits) and the whole trace. \<^verbatim>\<open>asyncio.run\<close> raises KeyboardInterrupt when one
  has left the event loop, and also when the main task ends cancelled after a
  SIGINT; otherwise it returns or raises as \<^verbatim>\<open>main\<close> did. \<^verbatim>\<open>sys.exit(1)\<close> inside
  \<^verbatim>\<open>main\<close> raises SystemExit, which neither handler catches, and CancelledError is
  not of class Exception either. When the log call of the last handler raises (line
  190), nothing is logged and the process ends with that error, with status 1.
\<close>

definition terminated :: event where
  "terminated = Log INFO ''AWA terminated by user''"

definition entry :: "env \<Rightarrow> nat option \<times> event list" where
  "entry e =
     (let m = main e in
        if result m = NeverReturns then (None, trace m)
        else if result m = Abandoned then (Some 0, trace m @ [terminated])
        else
          (case close_loop (left m) of
             (WaitForever, cevs) \<Rightarrow> (None, trace m @ cevs)
           | (WaitReturned, cevs) \<Rightarrow>
               (if runner_state (left m) = Closing then (Some 0, trace m @ cevs @ [terminated])
                else
                  (case result m of
                     Exited c \<Rightarrow> (Some c, trace m @ cevs)
                   | Raised CancelledError \<Rightarrow>
                       (if runner_state (left m) = Signalled
                        then (Some 0, trace m @ cevs @ [terminated])
                        else (Some 1, trace m @ cevs))
                   | Raised (Error msg) \<Rightarrow>
                       (case log_exception e (''Fatal error: '' @ msg) of
                          Inl err \<Rightarrow> (Some 1, trace m @ cevs)
                        | Inr logged \<Rightarrow> (Some 1, trace m @ cevs @ [logged]))
                   | _ \<Rightarrow> (Some 0, trace m @ cevs)))
           | (r, cevs) \<Rightarrow> (Some 0, trace m @ cevs @ [terminated])))"

section \<open>What the specification says, and example installations\<close>

subsection \<open>Registry and Config Binder\<close>

text \<open>
  The Registry's rule of inclusion in the words of the specification: a candidate is
  included when its name has no leading underscore, it loads, and it exposes
  \<^verbatim>\<open>init\<close>; and the unit that a candidate then is.
\<close>

definition included :: "env \<Rightarrow> string \<Rightarrow> bool" where
  "included e file_name =
     (\<not> startswith file_name ''_'' \<and>
      (case import_module e (''watchers.'' @ stem file_name) of
         Imported (Some f) \<Rightarrow> True
       | _ \<Rightarrow> False))"

definition loaded_module :: "env \<Rightarrow> string \<Rightarrow> module" where
  "loaded_module e file_name =
     \<lparr>mod_name = ''watchers.'' @ stem file_name,
      init = (case import_module e (''watchers.'' @ stem file_name) of
                Imported i \<Rightarrow> i
              | ImportRaises msg \<Rightarrow> None)\<rparr>"

text \<open>
  The Config Binder of the specification: \<^verbatim>\<open>configRoot[unit.name]\<close>, and the empty
  mapping when the section is absent.
\<close>

definition bind :: "(string \<times> yaml) list \<Rightarrow> string \<Rightarrow> yaml" where
  "bind config_root name =
     (case map_of config_root name of Some section \<Rightarrow> section | None \<Rightarrow> YMap [])"

text \<open>A configuration with an empty mapping put in for each missing top-level section.\<close>

definition fill_missing :: "(string \<times> yaml) list \<Rightarrow> (string \<times> yaml) list" where
  "fill_missing cfg =
     (if map_of cfg ''notifier'' = None then [(''notifier'', YMap [])] else [])
     @ (if map_of cfg ''watchers'' = None then [(''watchers'', YMap [])] else [])
     @ cfg"

text \<open>\<^verbatim>\<open>p in s\<close>: the text \<open>p\<close> occurs in \<open>s\<close>.\<close>

fun contains :: "string \<Rightarrow> string \<Rightarrow> bool" where
  "contains [] p = (p = [])"
| "contains (x # xs) p = (startswith (x # xs) p \<or> contains xs p)"

subsection \<open>Counting the units\<close>



definition start_raises :: "yaml \<Rightarrow> module \<Rightarrow> bool" where
  "start_raises watchers_config m =
     (case dict_get watchers_config (unit_name m) of
        Inl msg \<Rightarrow> True
      | Inr watcher_config \<Rightarrow>
          (case init m of
             None \<Rightarrow> True
           | Some f \<Rightarrow>
               (case f watcher_config of
                  InitRaises msg \<Rightarrow> True
                | InitOther shown \<Rightarrow> True
                | _ \<Rightarrow> False)))"

definition returns_nothing :: "yaml \<Rightarrow> module \<Rightarrow> bool" where
  "returns_nothing watchers_config m =
     (case dict_get watchers_config (unit_name m) of
        Inl msg \<Rightarrow> False
      | Inr watcher_config \<Rightarrow>
          (case init m of
             None \<Rightarrow> False
           | Some f \<Rightarrow> f watcher_config = InitFalsy))"

definition starts :: "yaml \<Rightarrow> module \<Rightarrow> bool" where
  "starts watchers_config m =
     (\<not> start_raises watchers_config m \<and> \<not> returns_nothing watchers_config m)"

subsection \<open>The phases of a run\<close>

text \<open>
  The outcome of discovery: the error that aborted it, if any, and the modules it
  returned.
\<close>

definition discovery_error :: "env \<Rightarrow> string option" where
  "discovery_error e = (case fst (discover_watchers e) of Inl err \<Rightarrow> Some err | Inr ms \<Rightarrow> None)"

definition discovered :: "env \<Rightarrow> module list" where
  "discovered e = (case fst (discover_watchers e) of Inl err \<Rightarrow> [] | Inr ms \<Rightarrow> ms)"

text \<open>
  For a configuration document that is a mapping: the error that aborted the start
  loop, if any, the tasks \<^verbatim>\<open>main\<close> creates, and what it emits up to the end of the
  start loop.
\<close>

definition start_error :: "env \<Rightarrow> (string \<times> yaml) list \<Rightarrow> string option" where
  "start_error e cfg = fst (start_watchers e (bind cfg ''watchers'') (discovered e))"

definition started :: "env \<Rightarrow> (string \<times> yaml) list \<Rightarrow> task list" where
  "started e cfg = fst (snd (start_watchers e (bind cfg ''watchers'') (discovered e)))"

definition startup_events :: "env \<Rightarrow> (string \<times> yaml) list \<Rightarrow> event list" where
  "startup_events e cfg =
     [Log INFO ''AtomicWatcherAquarium starting'', NotifierInit (bind cfg ''notifier'')]
     @ snd (discover_watchers e)
     @ snd (snd (start_watchers e (bind cfg ''watchers'') (discovered e)))"

text \<open>The tasks as they are when \<^verbatim>\<open>main\<close> leaves them without having waited.\<close>

definition untouched :: "env \<Rightarrow> task list \<Rightarrow> loop" where
  "untouched e ts =
     \<lparr>runner_state = Serving, created = ts, states = replicate (length ts) Running,
      upcoming = schedule e\<rparr>"

fun is_log :: "event \<Rightarrow> bool" where
  "is_log (Log l msg) = True"
| "is_log ev = False"

fun is_init_called :: "event \<Rightarrow> bool" where
  "is_init_called (InitCalled n c) = True"
| "is_init_called ev = False"

text \<open>The events of the startup phase, and those of the supervisor phase.\<close>

fun startup_event :: "event \<Rightarrow> bool" where
  "startup_event (Log l msg) = True"
| "startup_event (NotifierInit c) = True"
| "startup_event (InitCalled n c) = True"
| "startup_event (TaskCreated n) = True"
| "startup_event ev = False"

fun run_event :: "event \<Rightarrow> bool" where
  "run_event (NotifierInit c) = False"
| "run_event (InitCalled n c) = False"
| "run_event (TaskCreated n) = False"
| "run_event ev = True"

fun is_task_done :: "event \<Rightarrow> bool" where
  "is_task_done (TaskDone i s) = True"
| "is_task_done ev = False"

text \<open>
  The supervisor phase in pieces: what is emitted up to the first wait, the log line of
  the \<^verbatim>\<open>except KeyboardInterrupt\<close> clause, the cancellations and their delivery at
  the head of the \<^verbatim>\<open>finally\<close> block, and the way \<^verbatim>\<open>main\<close> ends once that block has
  run to its end.
\<close>

definition waiting :: "task list \<Rightarrow> event list" where
  "waiting ts = announce ts @ [Log INFO ''Startup notification sent'', AwaitGather]"

definition signal_log :: "wait_result \<Rightarrow> event list" where
  "signal_log r =
     (if r = WaitInterrupted
      then [Log INFO ''Shutdown signal received, stopping watchers...''] else [])"

definition wind_down :: "task list \<Rightarrow> tstate list \<Rightarrow> event list" where
  "wind_down ts sts = cancel_all 0 sts @ [AwaitGatherAll] @ snd (deliver 0 ts sts)"

fun propagated :: "wait_result \<Rightarrow> result" where
  "propagated (WaitRaised msg) = Raised (Error msg)"
| "propagated WaitCancelled = Raised CancelledError"
| "propagated r = Returned"

text \<open>
  The \<^verbatim>\<open>finally\<close> block by the way its wait ends: the way the block ends instead
  of running to its end, and what it emits after the wait.
\<close>

fun cut_short :: "env \<Rightarrow> wait_result \<Rightarrow> result option" where
  "cut_short e WaitReturned =
     (case close_raises e of Some msg \<Rightarrow> Some (Raised (Error msg)) | None \<Rightarrow> None)"
| "cut_short e WaitCancelled = Some (Raised CancelledError)"
| "cut_short e WaitForever = Some NeverReturns"
| "cut_short e (WaitRaised msg) = Some (Raised (Error msg))"
| "cut_short e r = Some Abandoned"

definition closing :: "env \<Rightarrow> wait_result \<Rightarrow> event list" where
  "closing e r =
     (if r = WaitReturned then
        (if close_raises e = None
         then [Close, Log INFO ''All watchers stopped. AWA terminated.''] else [Close])
      else [])"

text \<open>
  What a stretch of a run does to the tasks: no task is added or dropped, a task that is
  done stays as it is, every task that becomes done is in the events with its final
  state, and the events are of that kind only.
\<close>

definition progress :: "tstate list \<Rightarrow> tstate list \<Rightarrow> event list \<Rightarrow> bool" where
  "progress sts sts' evs =
     (length sts' = length sts
      \<and> (\<forall>i<length sts. sts ! i \<noteq> Running \<longrightarrow> sts' ! i = sts ! i)
      \<and> (\<forall>i<length sts. sts ! i = Running \<and> sts' ! i \<noteq> Running \<longrightarrow>
             TaskDone i (sts' ! i) \<in> set evs)
      \<and> list_all is_task_done evs)"

subsection \<open>Example installations\<close>

text \<open>
  An installation with one private file, two watchers that start, one module that does
  not load, one without \<^verbatim>\<open>init\<close>, one whose \<^verbatim>\<open>init\<close> returns nothing to run and
  one whose \<^verbatim>\<open>init\<close> raises. Its variants change one field each. Every message with
  a brace that the examples log with \<^verbatim>\<open>exc_info=True\<close> has the replacement field
  \<^verbatim>\<open>{}\<close> as its first brace, on which \<^verbatim>\<open>str.format\<close> without positional arguments
  raises IndexError with the text below.
\<close>

definition demo_format :: "string \<Rightarrow> string + string" where
  "demo_format message = Inl ''Replacement index 0 out of range for positional args tuple''"

definition demo_import :: "string \<Rightarrow> import_result" where
  "demo_import module_name =
     (if module_name = ''watchers.mail'' then Imported (Some (\<lambda>c. InitCoro Unwinds))
      else if module_name = ''watchers.disk'' then Imported (Some (\<lambda>c. InitCoro Unwinds))
      else if module_name = ''watchers.idle'' then Imported (Some (\<lambda>c. InitFalsy))
      else if module_name = ''watchers.crash'' then Imported (Some (\<lambda>c. InitRaises ''missing key: path''))
      else if module_name = ''watchers.helper'' then Imported None
      else if module_name = ''watchers.watcher_disk'' then Imported (Some (\<lambda>c. InitCoro Unwinds))
      else ImportRaises ''No module named imaplib2'')"

definition demo_files :: "string list" where
  "demo_files = [''__init__.py'', ''mail.py'', ''broken.py'', ''disk.py'',
                 ''helper.py'', ''idle.py'', ''crash.py'']"

definition demo_watchers :: "(string \<times> yaml) list" where
  "demo_watchers = [(''mail'', YMap [(''host'', YStr ''imap.example.org'')])]"

definition demo_config :: "(string \<times> yaml) list" where
  "demo_config = [(''notifier'', YMap [(''token'', YStr ''t0'')]),
                  (''watchers'', YMap demo_watchers)]"

definition demo_env :: env where
  "demo_env =
     \<lparr>here = ''/opt/awa'',
      config_yaml = Document (YMap demo_config),
      notifier_init = (\<lambda>c. None),
      watchers_dir = Some demo_files,
      import_module = demo_import,
      str_format = demo_format,
      send_raises = None,
      close_raises = None,
      schedule = []\<rparr>"

definition demo_mail :: module where
  "demo_mail = \<lparr>mod_name = ''watchers.mail'', init = Some (\<lambda>c. InitCoro Unwinds)\<rparr>"

definition demo_disk :: module where
  "demo_disk = \<lparr>mod_name = ''watchers.disk'', init = Some (\<lambda>c. InitCoro Unwinds)\<rparr>"

definition demo_idle :: module where
  "demo_idle = \<lparr>mod_name = ''watchers.idle'', init = Some (\<lambda>c. InitFalsy)\<rparr>"

definition demo_crash :: module where
  "demo_crash = \<lparr>mod_name = ''watchers.crash'', init = Some (\<lambda>c. InitRaises ''missing key: path'')\<rparr>"

definition no_dir_env :: env where
  "no_dir_env = demo_env\<lparr>watchers_dir := None\<rparr>"

definition bare_env :: env where
  "bare_env = demo_env\<lparr>watchers_dir := Some [''__init__.py'']\<rparr>"

definition idle_env :: env where
  "idle_env = demo_env\<lparr>watchers_dir := Some [''idle.py'', ''crash.py'']\<rparr>"

definition quiet_env :: env where
  "quiet_env = demo_env\<lparr>watchers_dir := Some [''mail.py'', ''idle.py'']\<rparr>"

definition null_env :: env where
  "null_env = demo_env\<lparr>config_yaml := Document YNull\<rparr>"

definition blank_env :: env where
  "blank_env = demo_env\<lparr>config_yaml := Document (YMap [])\<rparr>"

text \<open>
  The same installation with braces in two error texts: broken.py raises while it is
  imported, with the text \<^verbatim>\<open>no notifier settings in {}\<close>, and the \<^verbatim>\<open>init\<close> of
  crash.py raises with the text \<^verbatim>\<open>unexpected config: {}\<close>.
\<close>

definition braced_import :: "string \<Rightarrow> import_result" where
  "braced_import module_name =
     (if module_name = ''watchers.broken''
      then ImportRaises ''no notifier settings in {}''
      else if module_name = ''watchers.crash''
      then Imported (Some (\<lambda>c. InitRaises ''unexpected config: {}''))
      else demo_import module_name)"

definition braced_crash :: module where
  "braced_crash =
     \<lparr>mod_name = ''watchers.crash'',
      init = Some (\<lambda>c. InitRaises ''unexpected config: {}'')\<rparr>"

definition broken_first_env :: env where
  "broken_first_env =
     demo_env\<lparr>watchers_dir := Some [''broken.py'', ''mail.py''], import_module := braced_import\<rparr>"

definition crash_only_env :: env where
  "crash_only_env =
     demo_env\<lparr>watchers_dir := Some [''crash.py''], import_module := braced_import\<rparr>"

definition crash_first_env :: env where
  "crash_first_env =
     demo_env\<lparr>watchers_dir := Some [''crash.py'', ''mail.py''], import_module := braced_import\<rparr>"

definition crash_last_env :: env where
  "crash_last_env =
     demo_env\<lparr>watchers_dir := Some [''mail.py'', ''crash.py''], import_module := braced_import\<rparr>"

text \<open>Runs of the example installation: what happens during the wait, and a failing notifier.\<close>

definition interrupt_env :: env where
  "interrupt_env = demo_env\<lparr>schedule := [Sigint]\<rparr>"

definition crash_env :: env where
  "crash_env = demo_env\<lparr>schedule := [Ends 0 (Raises ''connection reset'')]\<rparr>"

definition late_crash_env :: env where
  "late_crash_env = demo_env\<lparr>schedule := [Ends 1 (Raises ''disk gone''), Ends 0 Returns]\<rparr>"

definition send_fails_env :: env where
  "send_fails_env = demo_env\<lparr>send_raises := Some ''HTTP 503''\<rparr>"

definition refused_env :: env where
  "refused_env = demo_env\<lparr>watchers_dir := Some [''mail.py''], send_raises := Some ''connection refused''\<rparr>"

definition prefixed_env :: env where
  "prefixed_env = demo_env\<lparr>watchers_dir := Some [''watcher_disk.py'']\<rparr>"

section \<open>Properties of discovery and startup\<close>

subsection \<open>Evaluating the example installation\<close>

lemma demo_import_simps:
  "demo_import ''watchers.mail'' = Imported (Some (\<lambda>c. InitCoro Unwinds))"
  "demo_import ''watchers.disk'' = Imported (Some (\<lambda>c. InitCoro Unwinds))"
  "demo_import ''watchers.idle'' = Imported (Some (\<lambda>c. InitFalsy))"
  "demo_import ''watchers.crash'' = Imported (Some (\<lambda>c. InitRaises ''missing key: path''))"
  "demo_import ''watchers.helper'' = Imported None"
  "demo_import ''watchers.broken'' = ImportRaises ''No module named imaplib2''"
  "demo_import ''watchers.watcher_disk'' = Imported (Some (\<lambda>c. InitCoro Unwinds))"
  by (simp_all add: demo_import_def)

lemma braced_import_simps:
  "braced_import ''watchers.mail'' = Imported (Some (\<lambda>c. InitCoro Unwinds))"
  "braced_import ''watchers.broken''
     = ImportRaises ''no notifier settings in {}''"
  "braced_import ''watchers.crash''
     = Imported (Some (\<lambda>c. InitRaises ''unexpected config: {}''))"
  by (simp_all add: braced_import_def demo_import_def)

lemma demo_stem_simps:
  "stem ''mail.py'' = ''mail''"
  "stem ''disk.py'' = ''disk''"
  "stem ''idle.py'' = ''idle''"
  "stem ''crash.py'' = ''crash''"
  "stem ''helper.py'' = ''helper''"
  "stem ''broken.py'' = ''broken''"
  "stem ''watcher_disk.py'' = ''watcher_disk''"
  by (simp_all add: stem_def)

lemma demo_private_simps:
  "startswith ''__init__.py'' ''_''"
  "\<not> startswith ''mail.py'' ''_''"
  "\<not> startswith ''disk.py'' ''_''"
  "\<not> startswith ''idle.py'' ''_''"
  "\<not> startswith ''crash.py'' ''_''"
  "\<not> startswith ''helper.py'' ''_''"
  "\<not> startswith ''broken.py'' ''_''"
  "\<not> startswith ''watcher_disk.py'' ''_''"
  by (simp_all add: startswith_def)

lemma demo_unit_name_simps:
  "unit_name demo_mail = ''mail''"
  "unit_name demo_disk = ''disk''"
  "unit_name demo_idle = ''idle''"
  "unit_name demo_crash = ''crash''"
  "unit_name braced_crash = ''crash''"
  by (simp_all add: unit_name_def demo_mail_def demo_disk_def demo_idle_def demo_crash_def
      braced_crash_def)

lemma demo_module_simps:
  "mod_name demo_mail = ''watchers.mail''" "init demo_mail = Some (\<lambda>c. InitCoro Unwinds)"
  "mod_name demo_disk = ''watchers.disk''" "init demo_disk = Some (\<lambda>c. InitCoro Unwinds)"
  "mod_name demo_idle = ''watchers.idle''" "init demo_idle = Some (\<lambda>c. InitFalsy)"
  "mod_name demo_crash = ''watchers.crash''"
  "init demo_crash = Some (\<lambda>c. InitRaises ''missing key: path'')"
  "mod_name braced_crash = ''watchers.crash''"
  "init braced_crash = Some (\<lambda>c. InitRaises ''unexpected config: {}'')"
  by (simp_all add: demo_mail_def demo_disk_def demo_idle_def demo_crash_def braced_crash_def)

lemmas demo_env_simps = demo_env_def no_dir_env_def bare_env_def idle_env_def quiet_env_def
  null_env_def blank_env_def

text \<open>The log calls with \<^verbatim>\<open>exc_info=True\<close> of the examples.\<close>

lemma log_exception_plain: "\<not> has_brace message \<Longrightarrow> log_exception e message = Inr (Log ERROR message)"
  by (simp add: log_exception_def)

lemma log_exception_logged:
  "log_exception e message = Inr logged \<Longrightarrow> \<exists>text. logged = Log ERROR text"
  by (auto simp: log_exception_def split: if_splits sum.splits)

lemma log_exception_is_log: "log_exception e message = Inr logged \<Longrightarrow> is_log logged"
  by (auto dest: log_exception_logged)

lemma demo_log_simps:
  "log_exception e ''Failed to load watcher watchers.broken: No module named imaplib2''
     = Inr (Log ERROR ''Failed to load watcher watchers.broken: No module named imaplib2'')"
  "log_exception e ''Failed to initialize watchers.crash: missing key: path''
     = Inr (Log ERROR ''Failed to initialize watchers.crash: missing key: path'')"
  "log_exception e ''Fatal error: Replacement index 0 out of range for positional args tuple''
     = Inr (Log ERROR ''Fatal error: Replacement index 0 out of range for positional args tuple'')"
  "log_exception e ''Fatal error: HTTP 503'' = Inr (Log ERROR ''Fatal error: HTTP 503'')"
  "log_exception e ''Fatal error: connection refused''
     = Inr (Log ERROR ''Fatal error: connection refused'')"
  "log_exception e ''Fatal error: disk gone'' = Inr (Log ERROR ''Fatal error: disk gone'')"
  "log_exception e ''Fatal error: connection reset''
     = Inr (Log ERROR ''Fatal error: connection reset'')"
  by (simp_all add: log_exception_def has_brace_def)

lemma braced_log_simps:
  "str_format e = demo_format \<Longrightarrow>
   log_exception e ''Failed to load watcher watchers.broken: no notifier settings in {}''
     = Inl ''Replacement index 0 out of range for positional args tuple''"
  "str_format e = demo_format \<Longrightarrow>
   log_exception e ''Failed to initialize watchers.crash: unexpected config: {}''
     = Inl ''Replacement index 0 out of range for positional args tuple''"
  by (simp_all add: log_exception_def has_brace_def demo_format_def)

lemmas demo_eval = demo_import_simps demo_stem_simps demo_private_simps demo_log_simps
  discover_watchers_def discover_file_def Let_def

lemma demo_discovered:
  "discover_watchers demo_env =
     (Inr [demo_mail, demo_disk, demo_idle, demo_crash],
      [Log INFO ''Discovered watcher: watchers.mail'',
       Log ERROR ''Failed to load watcher watchers.broken: No module named imaplib2'',
       Log INFO ''Discovered watcher: watchers.disk'',
       Log WARNING ''Module watchers.helper has no init() function'',
       Log INFO ''Discovered watcher: watchers.idle'',
       Log INFO ''Discovered watcher: watchers.crash''])"
  by (simp add: demo_env_def demo_files_def demo_eval
      demo_mail_def demo_disk_def demo_idle_def demo_crash_def)

lemma idle_discovered:
  "discover_watchers idle_env =
     (Inr [demo_idle, demo_crash],
      [Log INFO ''Discovered watcher: watchers.idle'',
       Log INFO ''Discovered watcher: watchers.crash''])"
  by (simp add: demo_env_simps demo_eval demo_idle_def demo_crash_def)


lemma bare_discovered: "discover_watchers bare_env = (Inr [], [])"
  by (simp add: demo_env_simps demo_eval)

lemma no_dir_discovered:
  "discover_watchers no_dir_env
     = (Inr [], [Log ERROR ''Watchers directory not found: /opt/awa/watchers''])"
  by (simp add: demo_env_simps discover_watchers_def)

lemma demo_start_module:
  "start_module e (YMap demo_watchers) demo_mail =
     (Inr [\<lparr>task_name = ''watcher_mail'', on_cancel = Unwinds\<rparr>],
      [InitCalled ''watchers.mail'' (YMap [(''host'', YStr ''imap.example.org'')]),
       TaskCreated ''watcher_mail'', Log INFO ''Started watcher: mail''])"
  "start_module e (YMap demo_watchers) demo_disk =
     (Inr [\<lparr>task_name = ''watcher_disk'', on_cancel = Unwinds\<rparr>],
      [InitCalled ''watchers.disk'' (YMap []),
       TaskCreated ''watcher_disk'', Log INFO ''Started watcher: disk''])"
  "start_module e (YMap demo_watchers) demo_idle
     = (Inr [], [InitCalled ''watchers.idle'' (YMap [])])"
  "start_module e (YMap demo_watchers) demo_crash =
     (Inr [], [InitCalled ''watchers.crash'' (YMap []),
               Log ERROR ''Failed to initialize watchers.crash: missing key: path''])"
  by (simp_all add: start_module_def start_failed_def demo_unit_name_simps demo_watchers_def
      Let_def demo_module_simps demo_log_simps)

lemma braced_start_module:
  "str_format e = demo_format \<Longrightarrow>
   start_module e (YMap demo_watchers) braced_crash =
     (Inl ''Replacement index 0 out of range for positional args tuple'',
      [InitCalled ''watchers.crash'' (YMap [])])"
  by (simp add: start_module_def start_failed_def demo_unit_name_simps demo_watchers_def
      Let_def demo_module_simps braced_log_simps)

lemma demo_bind:
  "bind demo_config ''notifier'' = YMap [(''token'', YStr ''t0'')]"
  "bind demo_config ''watchers'' = YMap demo_watchers"
  by (simp_all add: bind_def demo_config_def)



subsection \<open>Discovery\<close>

lemma discover_file_modules:
  "fst (discover_file e f) = Inr ms \<Longrightarrow> ms = (if included e f then [loaded_module e f] else [])"
  by (auto simp: discover_file_def included_def loaded_module_def Let_def
      split: if_splits import_result.splits option.splits sum.splits)

lemma discover_loop_modules:
  "fst (discover_loop e fs) = Inr ms \<Longrightarrow> ms = map (loaded_module e) (filter (included e) fs)"
proof (induction fs arbitrary: ms)
  case Nil
  then show ?case by simp
next
  case (Cons f fs)
  obtain r1 evs1 where d: "discover_file e f = (r1, evs1)"
    by (metis surj_pair)
  obtain r2 evs2 where l: "discover_loop e fs = (r2, evs2)"
    by (metis surj_pair)
  from Cons.prems d l obtain ms1 ms2 where r: "r1 = Inr ms1" "r2 = Inr ms2" "ms = ms1 @ ms2"
    by (auto split: sum.splits)
  from discover_file_modules [of e f ms1] d r(1)
  have "ms1 = (if included e f then [loaded_module e f] else [])"
    by simp
  moreover from Cons.IH [of ms2] l r(2)
  have "ms2 = map (loaded_module e) (filter (included e) fs)"
    by simp
  ultimately show ?case
    using r(3) by simp
qed

lemma discover_file_logs: "list_all is_log (snd (discover_file e f))"
  by (auto simp: discover_file_def Let_def dest: log_exception_is_log
      split: import_result.splits sum.splits)

lemma discover_loop_logs: "list_all is_log (snd (discover_loop e fs))"
proof (induction fs)
  case Nil
  then show ?case by simp
next
  case (Cons f fs)
  with discover_file_logs [of e f] show ?case
    by (auto split: prod.splits sum.splits)
qed

lemma discover_watchers_logs: "list_all is_log (snd (discover_watchers e))"
  by (simp add: discover_watchers_def discover_loop_logs split: option.splits)

lemma discover_file_has_init:
  "fst (discover_file e f) = Inr ms \<Longrightarrow> m \<in> set ms \<Longrightarrow> init m \<noteq> None"
  by (auto simp: discover_file_def Let_def split: if_splits import_result.splits sum.splits)

lemma discover_watchers_modules:
  assumes "watchers_dir e = Some files" and "fst (discover_watchers e) = Inr ms"
  shows "ms = map (loaded_module e) (filter (included e) files)"
  using assms by (simp add: discover_watchers_def discover_loop_modules)

lemma included_has_init: "included e f \<Longrightarrow> \<exists>i. init (loaded_module e f) = Some i"
  by (auto simp: included_def loaded_module_def split: import_result.splits option.splits)

lemma discovered_has_init: "m \<in> set (discovered e) \<Longrightarrow> init m \<noteq> None"
proof (cases "watchers_dir e")
  case None
  assume "m \<in> set (discovered e)"
  with None show ?thesis
    by (simp add: discovered_def discover_watchers_def)
next
  case (Some files)
  assume m: "m \<in> set (discovered e)"
  show ?thesis
  proof (cases "fst (discover_watchers e)")
    case (Inl err)
    with m show ?thesis by (simp add: discovered_def)
  next
    case (Inr ms)
    from discover_watchers_modules [OF Some Inr] m Inr show ?thesis
      by (auto simp: discovered_def included_has_init)
  qed
qed

text \<open>
  What \<^verbatim>\<open>discover_watchers\<close> returns, when it returns: in scan order, exactly the
  candidates whose name has no leading underscore, that load and that expose
  \<^verbatim>\<open>init\<close>. It returns whenever the message of every failed load is logged, and it
  is when the message holds no brace.
\<close>

lemma discover_file_returns:
  assumes "\<And>msg. import_module e (''watchers.'' @ stem f) = ImportRaises msg \<Longrightarrow>
      \<not> has_brace (''Failed to load watcher watchers.'' @ stem f @ '': '' @ msg)"
  shows "\<exists>ms. fst (discover_file e f) = Inr ms"
  using assms
  by (auto simp: discover_file_def Let_def log_exception_plain split: import_result.splits)

lemma discover_loop_returns:
  assumes "\<And>f msg. f \<in> set fs \<Longrightarrow> import_module e (''watchers.'' @ stem f) = ImportRaises msg \<Longrightarrow>
      \<not> has_brace (''Failed to load watcher watchers.'' @ stem f @ '': '' @ msg)"
  shows "\<exists>ms. fst (discover_loop e fs) = Inr ms"
  using assms
proof (induction fs)
  case Nil
  then show ?case by simp
next
  case (Cons f fs)
  from Cons.prems have "\<exists>ms. fst (discover_file e f) = Inr ms"
    by (intro discover_file_returns) simp
  moreover from Cons have "\<exists>ms. fst (discover_loop e fs) = Inr ms"
    by simp
  ultimately show ?case
    by (auto split: prod.splits sum.splits)
qed

lemma discover_watchers_plain:
  assumes "watchers_dir e = Some files"
    and "\<And>f msg. f \<in> set files \<Longrightarrow> import_module e (''watchers.'' @ stem f) = ImportRaises msg \<Longrightarrow>
      \<not> has_brace (''Failed to load watcher watchers.'' @ stem f @ '': '' @ msg)"
  shows "fst (discover_watchers e) = Inr (map (loaded_module e) (filter (included e) files))"
proof -
  from discover_loop_returns [of files e] assms(2)
  obtain ms where "fst (discover_loop e files) = Inr ms"
    by blast
  with assms(1) have "fst (discover_watchers e) = Inr ms"
    by (simp add: discover_watchers_def)
  with discover_watchers_modules [OF assms(1) this] show ?thesis
    by simp
qed

subsection \<open>The startup phase of main\<close>

lemma dict_get_bind: "dict_get (YMap cfg) key = Inr (bind cfg key)"
  by (simp add: bind_def)

lemma is_log_startup: "is_log ev \<Longrightarrow> startup_event ev"
  by (cases ev) simp_all

lemma start_failed_events:
  "start_failed e m msg = (r, evs) \<Longrightarrow> evs = [] \<or> (\<exists>text. evs = [Log ERROR text])"
  by (auto simp: start_failed_def dest: log_exception_logged split: sum.splits)

lemma start_failed_startup: "list_all startup_event (snd (start_failed e m msg))"
  using start_failed_events [of e m msg "fst (start_failed e m msg)" "snd (start_failed e m msg)"]
  by auto

lemma start_module_startup: "list_all startup_event (snd (start_module e wc m))"
  by (auto simp: start_module_def Let_def start_failed_startup dest: start_failed_events
      split: sum.splits option.splits init_result.splits prod.splits)

lemma start_watchers_startup: "list_all startup_event (snd (snd (start_watchers e wc ms)))"
proof (induction ms)
  case Nil
  then show ?case by simp
next
  case (Cons m ms)
  with start_module_startup [of e wc m] show ?case
    by (auto split: prod.splits sum.splits)
qed

lemma startup_events_startup: "list_all startup_event (startup_events e cfg)"
  using discover_watchers_logs [of e]
    start_watchers_startup [of e "bind cfg ''watchers''" "discovered e"]
  by (auto simp: startup_events_def list_all_iff is_log_startup)

lemma startup_events_no_send: "Send text \<notin> set (startup_events e cfg)"
  using startup_events_startup [of e cfg] by (auto simp: list_all_iff)

lemma startup_events_no_close: "Close \<notin> set (startup_events e cfg)"
  using startup_events_startup [of e cfg] by (auto simp: list_all_iff)


text \<open>
  The run of \<^verbatim>\<open>main\<close> on a configuration document that is a mapping, once the
  notifier is constructed, by the outcome of discovery and of the start loop.
\<close>

lemma main_discovery_aborted:
  assumes "config_yaml e = Document (YMap cfg)"
    and "notifier_init e (bind cfg ''notifier'') = None"
    and "discovery_error e = Some err"
  shows "main e =
     \<lparr>result = Raised (Error err),
      trace = [Log INFO ''AtomicWatcherAquarium starting'', NotifierInit (bind cfg ''notifier'')]
              @ snd (discover_watchers e),
      left = no_tasks e\<rparr>"
  using assms
  by (auto simp: main_def bind_def discovery_error_def Let_def split: sum.splits)

lemma main_trace:
  assumes "config_yaml e = Document (YMap cfg)"
    and "notifier_init e (bind cfg ''notifier'') = None"
    and "discovery_error e = None"
  shows "main e =
     (if discovered e = [] then
        \<lparr>result = Returned, trace = startup_events e cfg @ [Log WARNING ''No watchers found!''],
         left = no_tasks e\<rparr>
      else if start_error e cfg \<noteq> None then
        \<lparr>result = Raised (Error (the (start_error e cfg))), trace = startup_events e cfg,
         left = untouched e (started e cfg)\<rparr>
      else if started e cfg = [] then
        \<lparr>result = Returned,
         trace = startup_events e cfg @ [Log ERROR ''No watcher tasks started!''],
         left = no_tasks e\<rparr>
      else \<lparr>result = fst (supervise e (started e cfg)),
            trace = startup_events e cfg @ fst (snd (supervise e (started e cfg))),
            left = snd (snd (supervise e (started e cfg)))\<rparr>)"
proof (cases "fst (discover_watchers e)")
  case (Inl err)
  with assms(3) show ?thesis
    by (simp add: discovery_error_def)
next
  case (Inr ms)
  obtain r ts sevs where s: "start_watchers e (bind cfg ''watchers'') ms = (r, ts, sevs)"
    by (metis prod_cases3)
  obtain res evs lp where u: "supervise e ts = (res, evs, lp)"
    by (metis prod_cases3)
  from assms(1,2) Inr s u show ?thesis
    by (cases r)
       (auto simp: main_def bind_def Let_def started_def start_error_def startup_events_def
          discovered_def untouched_def)
qed

lemma main_notifier_fails:
  assumes "config_yaml e = Document (YMap cfg)"
    and "notifier_init e (bind cfg ''notifier'') = Some msg"
  shows "main e =
     \<lparr>result = Raised (Error msg),
      trace = [Log INFO ''AtomicWatcherAquarium starting'', NotifierInit (bind cfg ''notifier'')],
      left = no_tasks e\<rparr>"
  using assms by (simp add: main_def dict_get_bind del: dict_get.simps)

lemma started_no_modules: "discovered e = [] \<Longrightarrow> started e cfg = []"
  by (simp add: started_def)

lemma start_error_no_modules: "discovered e = [] \<Longrightarrow> start_error e cfg = None"
  by (simp add: start_error_def)

lemma start_failed_no_task: "TaskCreated n \<notin> set (snd (start_failed e m msg))"
  using start_failed_events [of e m msg "fst (start_failed e m msg)" "snd (start_failed e m msg)"]
  by auto

lemma start_failed_tasks: "start_failed e m msg = (Inr ts, evs) \<Longrightarrow> ts = []"
  by (auto simp: start_failed_def split: sum.splits)

lemma start_module_no_task:
  "fst (start_module e wc m) = Inr [] \<Longrightarrow> TaskCreated n \<notin> set (snd (start_module e wc m))"
  by (auto simp: start_module_def Let_def start_failed_no_task dest: start_failed_events
      split: sum.splits option.splits init_result.splits prod.splits)

lemma start_watchers_no_task:
  "start_watchers e wc ms = (None, [], sevs) \<Longrightarrow> TaskCreated n \<notin> set sevs"
proof (induction ms arbitrary: sevs)
  case Nil
  then show ?case by simp
next
  case (Cons m ms)
  obtain r1 evs1 where d: "start_module e wc m = (r1, evs1)"
    by (metis surj_pair)
  obtain r2 ts2 evs2 where l: "start_watchers e wc ms = (r2, ts2, evs2)"
    by (metis prod_cases3)
  from Cons.prems d l have r: "r1 = Inr []" "r2 = None" "ts2 = []" "sevs = evs1 @ evs2"
    by (auto split: sum.splits)
  from start_module_no_task [of e wc m n] d r(1) have "TaskCreated n \<notin> set evs1"
    by simp
  moreover from Cons.IH [of evs2] l r have "TaskCreated n \<notin> set evs2"
    by simp
  ultimately show ?case
    using r(4) by simp
qed

lemma startup_events_no_task:
  assumes "start_error e cfg = None" and "started e cfg = []"
  shows "TaskCreated n \<notin> set (startup_events e cfg)"
proof -
  have "TaskCreated n \<notin> set (snd (discover_watchers e))"
    using discover_watchers_logs [of e] by (auto simp: list_all_iff)
  moreover from assms
  have "start_watchers e (bind cfg ''watchers'') (discovered e)
      = (None, [], snd (snd (start_watchers e (bind cfg ''watchers'') (discovered e))))"
    by (simp add: started_def start_error_def prod_eq_iff)
  then have "TaskCreated n
      \<notin> set (snd (snd (start_watchers e (bind cfg ''watchers'') (discovered e))))"
    by (rule start_watchers_no_task)
  ultimately show ?thesis by (simp add: startup_events_def)
qed

subsection \<open>A load failure whose message holds a brace\<close>

text \<open>
  Claim C7 says that a load failure skips only the unit that fails and never aborts
  the discovery of the others. The handler of the load failure (line 74) logs with
  \<^verbatim>\<open>exc_info=True\<close>, so that loguru formats the message: when the text of the error
  holds a brace, the log call raises inside the handler and its error leaves
  \<^verbatim>\<open>discover_watchers\<close>. With broken.py before mail.py, the scan ends at broken.py
  with nothing logged and nothing returned, mail.py (which would be included) is never
  examined, and the process exits with status 1.
\<close>

theorem discovery_aborted_by_log_call:
  "watchers_dir broken_first_env = Some [''broken.py'', ''mail.py'']
   \<and> import_module broken_first_env ''watchers.broken''
       = ImportRaises ''no notifier settings in {}''
   \<and> included broken_first_env ''mail.py''
   \<and> discover_watchers broken_first_env
       = (Inl ''Replacement index 0 out of range for positional args tuple'', [])
   \<and> result (main broken_first_env)
       = Raised (Error ''Replacement index 0 out of range for positional args tuple'')
   \<and> entry broken_first_env =
       (Some 1, [Log INFO ''AtomicWatcherAquarium starting'',
                 NotifierInit (YMap [(''token'', YStr ''t0'')]),
                 Log ERROR ''Fatal error: Replacement index 0 out of range for positional args tuple''])"
proof -
  have f: "str_format broken_first_env = demo_format"
    and i: "import_module broken_first_env = braced_import"
    and w: "watchers_dir broken_first_env = Some [''broken.py'', ''mail.py'']"
    by (simp_all add: broken_first_env_def demo_env_def)
  have d: "discover_watchers broken_first_env
      = (Inl ''Replacement index 0 out of range for positional args tuple'', [])"
    by (simp add: discover_watchers_def discover_file_def w i braced_import_simps
        demo_stem_simps demo_private_simps braced_log_simps [OF f])
  have inc: "included broken_first_env ''mail.py''"
    by (simp add: included_def i braced_import_simps demo_stem_simps demo_private_simps)
  have c: "config_yaml broken_first_env = Document (YMap demo_config)"
    and n: "notifier_init broken_first_env (bind demo_config ''notifier'') = None"
    by (simp_all add: broken_first_env_def demo_env_def)
  have m: "main broken_first_env =
      \<lparr>result = Raised (Error ''Replacement index 0 out of range for positional args tuple''),
       trace = [Log INFO ''AtomicWatcherAquarium starting'',
                NotifierInit (YMap [(''token'', YStr ''t0'')])],
       left = no_tasks broken_first_env\<rparr>"
    using main_discovery_aborted [OF c n, of "''Replacement index 0 out of range for positional args tuple''"]
    by (simp add: discovery_error_def d demo_bind)
  have sc: "schedule broken_first_env = []"
    by (simp add: broken_first_env_def demo_env_def)
  have en: "entry broken_first_env =
      (Some 1, [Log INFO ''AtomicWatcherAquarium starting'',
                NotifierInit (YMap [(''token'', YStr ''t0'')]),
                Log ERROR ''Fatal error: Replacement index 0 out of range for positional args tuple''])"
    by (simp add: entry_def m close_loop_def no_tasks_def sc all_done_def demo_log_simps)
  from w i d inc m en show ?thesis
    by (simp add: braced_import_simps)
qed

section \<open>Properties of the event loop and of the supervisor phase\<close>

subsection \<open>Tasks that take a cancellation\<close>




lemma deliver_length: "length (fst (deliver n ts sts)) = length sts"
  by (induction n ts sts rule: deliver.induct) simp_all

lemma deliver_task_done: "list_all is_task_done (snd (deliver n ts sts))"
  by (induction n ts sts rule: deliver.induct) simp_all

lemma deliver_states:
  "i < length sts \<Longrightarrow>
   (sts ! i \<noteq> Running \<longrightarrow> fst (deliver n ts sts) ! i = sts ! i)
   \<and> (sts ! i = Running \<and> fst (deliver n ts sts) ! i \<noteq> Running \<longrightarrow>
        TaskDone (n + i) (fst (deliver n ts sts) ! i) \<in> set (snd (deliver n ts sts)))
   \<and> (sts ! i = Running \<and> i < length ts \<longrightarrow>
        fst (deliver n ts sts) ! i = respond (on_cancel (ts ! i)))"
proof (induction n ts sts arbitrary: i rule: deliver.induct)
  case (1 n t ts s sts)
  show ?case
  proof (cases i)
    case 0
    then show ?thesis by simp
  next
    case (Suc i')
    with "1.prems" have p: "i' < length sts" by simp
    show ?thesis
    proof (cases "s = Running")
      case True
      with "1.IH"(1) [OF True p] Suc show ?thesis by simp
    next
      case False
      with "1.IH" p Suc show ?thesis by auto
    qed
  qed
qed simp_all

lemma deliver_progress: "progress sts (fst (deliver 0 ts sts)) (snd (deliver 0 ts sts))"
  using deliver_states [of _ sts 0 ts]
  by (simp add: progress_def deliver_length deliver_task_done)

lemma deliver_done: "all_done sts \<Longrightarrow> deliver n ts sts = (sts, [])"
proof (induction n ts sts rule: deliver.induct)
  case (1 n t ts s sts)
  then show ?case by (simp add: all_done_def)
qed simp_all


lemma progress_refl: "progress sts sts []"
  by (simp add: progress_def)

lemma progress_trans:
  assumes "progress sts sts1 evs1" and "progress sts1 sts2 evs2"
  shows "progress sts sts2 (evs1 @ evs2)"
  unfolding progress_def
proof (intro conjI allI impI)
  from assms show "length sts2 = length sts"
    by (simp add: progress_def)
next
  fix i
  assume "i < length sts" and "sts ! i \<noteq> Running"
  with assms show "sts2 ! i = sts ! i"
    by (simp add: progress_def)
next
  fix i
  assume i: "i < length sts" and r: "sts ! i = Running \<and> sts2 ! i \<noteq> Running"
  show "TaskDone i (sts2 ! i) \<in> set (evs1 @ evs2)"
  proof (cases "sts1 ! i = Running")
    case True
    with assms(1) assms(2) i r show ?thesis
      by (simp add: progress_def)
  next
    case False
    with assms(1) i r have "TaskDone i (sts1 ! i) \<in> set evs1"
      by (simp add: progress_def)
    moreover from assms False i have "sts2 ! i = sts1 ! i"
      by (simp add: progress_def)
    ultimately show ?thesis by simp
  qed
next
  from assms show "list_all is_task_done (evs1 @ evs2)"
    by (simp add: progress_def)
qed

lemma progress_ends:
  assumes "i < length sts" and "sts ! i = Running"
  shows "progress sts (sts[i := s]) [TaskDone i s]"
  using assms by (auto simp: progress_def nth_list_update)

lemma progress_cons:
  "progress sts sts' evs \<Longrightarrow> progress sts sts' (TaskDone i s # evs)"
  by (simp add: progress_def)

subsection \<open>Waiting\<close>

lemma first_raised_kind:
  "first_raised ts sts = Some r \<Longrightarrow> r = WaitCancelled \<or> (\<exists>msg. r = WaitRaised msg)"
  by (induction ts sts rule: first_raised.induct) (auto split: if_splits cancel_response.splits)

lemma wait_step_stops:
  "wait_step b ts c rn sts w = Stops r rn' sts' evs \<Longrightarrow>
   r \<noteq> WaitReturned \<and> r \<noteq> WaitForever \<and> (b \<longrightarrow> r = WaitCancelled \<or> r = WaitAbandoned)"
  by (auto simp: wait_step_def dest: first_raised_kind
      split: wait_event.splits outcome.splits if_splits option.splits)

lemma wait_step_progress:
  assumes "wait_step b ts c rn sts w = Goes c' rn' sts' evs
      \<or> wait_step b ts c rn sts w = Stops r rn' sts' evs"
  shows "progress sts sts' evs"
proof (cases w)
  case Sigint
  with assms deliver_progress [of sts ts] progress_refl [of sts] show ?thesis
    by (auto simp: wait_step_def split: if_splits option.splits)
next
  case (Ends i out)
  show ?thesis
  proof (cases "i < length sts \<and> sts ! i = Running")
    case False
    with assms Ends progress_refl [of sts] show ?thesis
      by (auto simp: wait_step_def)
  next
    case True
    from True have e: "progress sts (sts[i := s]) [TaskDone i s]" for s
      by (simp add: progress_ends)
    from progress_trans [OF e [of Failed] deliver_progress [of "sts[i := Failed]" ts]]
    have d: "progress sts (fst (deliver 0 ts (sts[i := Failed])))
        (TaskDone i Failed # snd (deliver 0 ts (sts[i := Failed])))"
      by simp
    from assms Ends True e d show ?thesis
      by (auto simp: wait_step_def split: outcome.splits if_splits)
  qed
qed

lemma wait_step_goes_progress:
  "wait_step b ts c rn sts w = Goes c' rn' sts' evs \<Longrightarrow> progress sts sts' evs"
  using wait_step_progress [of b ts c rn sts w c' rn' sts' evs] by simp

lemma wait_step_stops_progress:
  "wait_step b ts c rn sts w = Stops r rn' sts' evs \<Longrightarrow> progress sts sts' evs"
  using wait_step_progress [of b ts c rn sts w _ rn' sts' evs r] by simp

lemma gather_progress:
  "gather b ts c rn sts ws = (r, rn', sts', evs, rest) \<Longrightarrow>
   progress sts sts' evs \<and> (r = WaitReturned \<longrightarrow> all_done sts')"
proof (induction ws arbitrary: c rn sts r rn' sts' evs rest)
  case Nil
  then show ?case
    by (auto simp: progress_refl split: if_splits)
next
  case (Cons w ws)
  show ?case
  proof (cases "all_done sts")
    case True
    with Cons.prems show ?thesis
      by (auto simp: progress_refl split: if_splits)
  next
    case nd: False
    show ?thesis
    proof (cases "wait_step b ts c rn sts w")
      case (Stops r1 rn1 sts1 evs1)
      with nd Cons.prems have eq: "r = r1" "sts' = sts1" "evs = evs1"
        by simp_all
      note wait_step_stops_progress [OF Stops]
      moreover from wait_step_stops [OF Stops] have "r1 \<noteq> WaitReturned"
        by simp
      ultimately show ?thesis
        by (simp add: eq)
    next
      case (Goes c1 rn1 sts1 evs1)
      obtain r2 rn2 sts2 evs2 rest2
        where g: "gather b ts c1 rn1 sts1 ws = (r2, rn2, sts2, evs2, rest2)"
        by (metis prod_cases5)
      with nd Goes Cons.prems have eq: "r = r2" "sts' = sts2" "evs = evs1 @ evs2"
        by simp_all
      from wait_step_goes_progress [OF Goes] Cons.IH [OF g] show ?thesis
        by (auto simp: eq intro: progress_trans)
    qed
  qed
qed

lemma gather_all_done:
  "all_done sts \<Longrightarrow>
   gather b ts c rn sts ws = (if c then WaitCancelled else WaitReturned, rn, sts, [], ws)"
  by (cases ws) simp_all

text \<open>Under \<^verbatim>\<open>return_exceptions=True\<close> a wait raises nothing that a task raised.\<close>

lemma gather_return_exceptions:
  "gather True ts c rn sts ws = (r, rn', sts', evs, rest) \<Longrightarrow>
   r = WaitReturned \<or> r = WaitCancelled \<or> r = WaitForever \<or> r = WaitAbandoned"
proof (induction ws arbitrary: c rn sts r rn' sts' evs rest)
  case Nil
  then show ?case by (auto split: if_splits)
next
  case (Cons w ws)
  show ?case
  proof (cases "all_done sts")
    case True
    with Cons.prems show ?thesis by (auto split: if_splits)
  next
    case nd: False
    show ?thesis
    proof (cases "wait_step True ts c rn sts w")
      case (Stops r1 rn1 sts1 evs1)
      with nd Cons.prems wait_step_stops [OF Stops] show ?thesis
        by auto
    next
      case (Goes c1 rn1 sts1 evs1)
      obtain r2 rn2 sts2 evs2 rest2
        where g: "gather True ts c1 rn1 sts1 ws = (r2, rn2, sts2, evs2, rest2)"
        by (metis prod_cases5)
      with nd Goes Cons.prems have "r = r2" by simp
      with Cons.IH [OF g] show ?thesis by simp
    qed
  qed
qed

text \<open>
  A wait that is not cancelled and in which no interrupt arrives leaves
  \<^verbatim>\<open>asyncio.run\<close> as it stands.
\<close>

lemma task_done_events:
  assumes "list_all is_task_done evs"
  shows "list_all run_event evs" and "Close \<notin> set evs" and "AwaitGather \<notin> set evs"
    and "AwaitGatherAll \<notin> set evs" and "CancelRequested i \<notin> set evs"
    and "Send text \<notin> set evs" and "Log l msg \<notin> set evs"
    and "filter is_init_called evs = []"
  using assms by (induction evs) (auto elim: is_task_done.elims)

lemma gather_task_done:
  "gather b ts c rn sts ws = (r, rn', sts', evs, rest) \<Longrightarrow> list_all is_task_done evs"
  by (auto dest: gather_progress simp: progress_def)

subsection \<open>The finally block\<close>

lemma cancel_all_run_events: "list_all run_event (cancel_all i sts)"
  by (induction sts arbitrary: i) simp_all


lemma cancel_all_no_init: "filter is_init_called (cancel_all i sts) = []"
  by (induction sts arbitrary: i) simp_all


lemma cancel_all_done: "all_done sts \<Longrightarrow> cancel_all n sts = []"
  by (induction sts arbitrary: n) (simp_all add: all_done_def)

lemma wind_down_run_events: "list_all run_event (wind_down ts sts)"
  using task_done_events(1) [OF deliver_task_done, of 0 ts sts]
  by (simp add: wind_down_def cancel_all_run_events)


lemma shutdown_eq:
  assumes "gather True ts False rn (fst (deliver 0 ts sts)) rest = (r, rn', sts', gevs, rest')"
  shows "shutdown e ts rn sts rest =
     (cut_short e r, wind_down ts sts @ gevs @ closing e r,
      \<lparr>runner_state = rn', created = ts, states = sts', upcoming = rest'\<rparr>)"
  using assms gather_return_exceptions [OF assms]
  by (auto simp: shutdown_def wind_down_def closing_def Let_def split: option.splits)

lemma closing_run_events: "list_all run_event (closing e r)"
  by (simp add: closing_def)

lemma shutdown_run_events: "list_all run_event (fst (snd (shutdown e ts rn sts rest)))"
proof -
  obtain r rn' sts' gevs rest'
    where g: "gather True ts False rn (fst (deliver 0 ts sts)) rest = (r, rn', sts', gevs, rest')"
    by (metis prod_cases5)
  from task_done_events(1) [OF gather_task_done [OF g]] show ?thesis
    by (simp add: shutdown_eq [OF g] wind_down_run_events closing_run_events)
qed


lemma cut_short_exited: "cut_short e r \<noteq> Some (Exited c)"
  by (cases r) (simp_all split: option.splits)




subsection \<open>The supervisor phase\<close>




lemma supervise_send_raises:
  "send_raises e = Some msg \<Longrightarrow>
   supervise e ts = (Raised (Error msg), announce ts, untouched e ts)"
  by (simp add: supervise_def untouched_def)

lemma supervise_eq:
  assumes "send_raises e = None"
    and "gather False ts False Serving (replicate (length ts) Running) (schedule e)
        = (r, rn, sts, gevs, rest)"
    and "shutdown e ts rn sts rest = (fr, fevs, lp)"
  shows "supervise e ts =
     (if r = WaitForever then
        (NeverReturns, waiting ts @ gevs,
         \<lparr>runner_state = rn, created = ts, states = sts, upcoming = rest\<rparr>)
      else if r = WaitAbandoned then
        (Abandoned, waiting ts @ gevs,
         \<lparr>runner_state = rn, created = ts, states = sts, upcoming = rest\<rparr>)
      else (case fr of Some res \<Rightarrow> res | None \<Rightarrow> propagated r,
            waiting ts @ gevs @ signal_log r @ fevs, lp))"
  using assms
  by (cases r; cases fr) (simp_all add: supervise_def waiting_def signal_log_def Let_def)

lemma supervise_run_events: "list_all run_event (fst (snd (supervise e ts)))"
proof (cases "send_raises e")
  case (Some msg)
  then show ?thesis
    by (simp add: supervise_send_raises announce_def)
next
  case None
  obtain r rn sts gevs rest
    where g: "gather False ts False Serving (replicate (length ts) Running) (schedule e)
        = (r, rn, sts, gevs, rest)"
    by (metis prod_cases5)
  obtain fr fevs lp where f: "shutdown e ts rn sts rest = (fr, fevs, lp)"
    by (metis prod_cases3)
  from shutdown_run_events [of e ts rn sts rest] f have "list_all run_event fevs"
    by simp
  with task_done_events(1) [OF gather_task_done [OF g]] show ?thesis
    by (simp add: supervise_eq [OF None g f] waiting_def announce_def signal_log_def)
qed




section \<open>Claims about the startup phase\<close>

subsection \<open>How a run of main goes on after the start loop\<close>

lemma started_discovered: "started e cfg \<noteq> [] \<Longrightarrow> discovery_error e = None \<and> discovered e \<noteq> []"
  by (auto simp: started_def discovered_def discovery_error_def split: sum.splits)

lemma start_error_discovered:
  "start_error e cfg = Some err \<Longrightarrow> discovery_error e = None \<and> discovered e \<noteq> []"
  by (auto simp: start_error_def discovered_def discovery_error_def split: sum.splits)

lemma main_supervise:
  assumes "config_yaml e = Document (YMap cfg)"
    and "notifier_init e (bind cfg ''notifier'') = None"
    and "start_error e cfg = None"
    and "started e cfg \<noteq> []"
  shows "main e =
     \<lparr>result = fst (supervise e (started e cfg)),
      trace = startup_events e cfg @ fst (snd (supervise e (started e cfg))),
      left = snd (snd (supervise e (started e cfg)))\<rparr>"
  using assms(3,4) started_discovered [OF assms(4)]
  by (simp add: main_trace [OF assms(1,2)])

lemma main_start_aborted:
  assumes "config_yaml e = Document (YMap cfg)"
    and "notifier_init e (bind cfg ''notifier'') = None"
    and "start_error e cfg = Some err"
  shows "main e =
     \<lparr>result = Raised (Error err), trace = startup_events e cfg,
      left = untouched e (started e cfg)\<rparr>"
  using assms(3) start_error_discovered [OF assms(3)]
  by (simp add: main_trace [OF assms(1,2)])

lemma main_no_tasks:
  assumes "config_yaml e = Document (YMap cfg)"
    and "notifier_init e (bind cfg ''notifier'') = None"
    and "discovery_error e = None"
    and "start_error e cfg = None"
    and "started e cfg = []"
  shows "main e =
     \<lparr>result = Returned,
      trace = startup_events e cfg
        @ [if discovered e = [] then Log WARNING ''No watchers found!''
           else Log ERROR ''No watcher tasks started!''],
      left = no_tasks e\<rparr>"
  using assms(4,5) by (simp add: main_trace [OF assms(1-3)])

text \<open>What \<^verbatim>\<open>asyncio.run\<close> finds when \<^verbatim>\<open>main\<close> has ended.\<close>

lemma close_loop_done: "all_done (states lp) \<Longrightarrow> close_loop lp = (WaitReturned, [])"
  by (simp add: close_loop_def deliver_done gather_all_done)

lemma close_loop_no_tasks: "close_loop (no_tasks e) = (WaitReturned, [])"
  by (simp add: close_loop_done no_tasks_def all_done_def)


lemma entry_returned:
  assumes "result (main e) = Returned" and "left (main e) = no_tasks e"
  shows "entry e = (Some 0, trace (main e))"
  using assms by (simp add: entry_def Let_def close_loop_done no_tasks_def all_done_def)

subsection \<open>Config binding\<close>

lemma start_failed_no_init: "filter is_init_called (snd (start_failed e m msg)) = []"
  using start_failed_events [of e m msg "fst (start_failed e m msg)" "snd (start_failed e m msg)"]
  by auto

lemma start_module_init_called:
  "init m \<noteq> None \<Longrightarrow>
   filter is_init_called (snd (start_module e (YMap wc) m))
     = [InitCalled (mod_name m) (bind wc (unit_name m))]"
  by (auto simp: start_module_def bind_def Let_def case_prod_beta start_failed_no_init
      split: init_result.splits)

lemma start_watchers_init_called:
  assumes "\<forall>m\<in>set ms. init m \<noteq> None"
  shows "\<exists>k. filter is_init_called (snd (snd (start_watchers e (YMap wc) ms)))
        = map (\<lambda>m. InitCalled (mod_name m) (bind wc (unit_name m))) (take k ms)
      \<and> (fst (start_watchers e (YMap wc) ms) = None \<longrightarrow> k = length ms)"
  using assms
proof (induction ms)
  case Nil
  then show ?case by simp
next
  case (Cons m ms)
  let ?f = "\<lambda>m. InitCalled (mod_name m) (bind wc (unit_name m))"
  obtain r1 evs1 where d: "start_module e (YMap wc) m = (r1, evs1)"
    by (metis surj_pair)
  from Cons.prems start_module_init_called [of m e wc] d
  have c: "filter is_init_called evs1 = [?f m]"
    by simp
  show ?case
  proof (cases r1)
    case (Inl err)
    with d c show ?thesis
      by (intro exI [of _ 1]) simp
  next
    case (Inr ts)
    obtain r2 ts2 evs2 where l: "start_watchers e (YMap wc) ms = (r2, ts2, evs2)"
      by (metis prod_cases3)
    from Cons obtain k where k: "filter is_init_called evs2 = map ?f (take k ms)"
      "r2 = None \<longrightarrow> k = length ms"
      using l by auto
    with d Inr l c show ?thesis
      by (intro exI [of _ "Suc k"]) simp
  qed
qed

lemma filter_other_kind:
  "list_all Q xs \<Longrightarrow> (\<And>x. Q x \<Longrightarrow> \<not> P x) \<Longrightarrow> filter P xs = []"
  by (induction xs) auto

lemma discover_watchers_no_init: "filter is_init_called (snd (discover_watchers e)) = []"
  by (rule filter_other_kind [OF discover_watchers_logs]) (auto elim: is_log.elims)

lemma supervise_no_init: "filter is_init_called (fst (snd (supervise e ts))) = []"
  by (rule filter_other_kind [OF supervise_run_events]) (auto elim: run_event.elims)

text \<open>
  The calls of \<^verbatim>\<open>init\<close> in a run, for a watchers section that is a mapping or
  absent: they are made for the discovered units in their order, for all of them when
  the notifier is constructed and the start loop runs to its end.
\<close>

lemma main_init_called:
  assumes "config_yaml e = Document (YMap cfg)"
    and "bind cfg ''watchers'' = YMap wc"
  shows "\<exists>k. filter is_init_called (trace (main e))
          = map (\<lambda>m. InitCalled (mod_name m) (bind wc (unit_name m))) (take k (discovered e))
      \<and> (notifier_init e (bind cfg ''notifier'') = None \<and> start_error e cfg = None \<longrightarrow>
           k = length (discovered e))"
proof -
  let ?f = "\<lambda>m. InitCalled (mod_name m) (bind wc (unit_name m))"
  let ?ms = "discovered e"
  have hi: "\<forall>m\<in>set ?ms. init m \<noteq> None"
    using discovered_has_init by blast
  from start_watchers_init_called [OF hi, of e wc]
  obtain k where k: "filter is_init_called (snd (snd (start_watchers e (YMap wc) ?ms)))
      = map ?f (take k ?ms)"
    "fst (start_watchers e (YMap wc) ?ms) = None \<longrightarrow> k = length ?ms"
    by auto
  have pre: "filter is_init_called (startup_events e cfg) = map ?f (take k ?ms)"
    using k(1) assms(2) by (simp add: startup_events_def discover_watchers_no_init)
  have full: "start_error e cfg = None \<longrightarrow> k = length ?ms"
    using k(2) assms(2) by (simp add: start_error_def)
  show ?thesis
  proof (cases "notifier_init e (bind cfg ''notifier'')")
    case (Some msg)
    show ?thesis
      by (intro exI [of _ 0]) (simp add: main_notifier_fails [OF assms(1) Some] Some)
  next
    case n: None
    show ?thesis
    proof (cases "discovery_error e")
      case (Some err)
      then have "?ms = []"
        by (auto simp: discovery_error_def discovered_def split: sum.splits)
      with Some show ?thesis
        by (simp add: main_discovery_aborted [OF assms(1) n] discover_watchers_no_init)
    next
      case None
      have "filter is_init_called (trace (main e)) = map ?f (take k ?ms)"
        by (simp add: main_trace [OF assms(1) n None] pre supervise_no_init)
      with full show ?thesis
        by auto
    qed
  qed
qed




subsection \<open>An empty watcher set\<close>

text \<open>
  When discovery yields no unit, or the start loop runs to its end without a task,
  \<^verbatim>\<open>main\<close> logs the condition as its last action and returns, and its trace holds
  no call of \<^verbatim>\<open>notifier.send\<close> and none of \<^verbatim>\<open>notifier.close\<close>.
\<close>

lemma empty_watcher_set_returns:
  assumes "config_yaml e = Document (YMap cfg)"
    and "notifier_init e (bind cfg ''notifier'') = None"
    and "discovery_error e = None"
    and "start_error e cfg = None"
    and "started e cfg = []"
  shows "result (main e) = Returned
    \<and> (\<forall>text. Send text \<notin> set (trace (main e)))
    \<and> Close \<notin> set (trace (main e))
    \<and> last (trace (main e)) =
        (if discovered e = [] then Log WARNING ''No watchers found!''
         else Log ERROR ''No watcher tasks started!'')"
  by (simp add: main_no_tasks [OF assms] startup_events_no_send startup_events_no_close)

lemma crash_only_fields:
  "config_yaml crash_only_env = Document (YMap demo_config)"
  "notifier_init crash_only_env c = None"
  "watchers_dir crash_only_env = Some [''crash.py'']"
  "import_module crash_only_env = braced_import"
  "str_format crash_only_env = demo_format"
  "schedule crash_only_env = []"
  by (simp_all add: crash_only_env_def demo_env_def)

lemma crash_only_discovered:
  "discover_watchers crash_only_env
     = (Inr [braced_crash], [Log INFO ''Discovered watcher: watchers.crash''])"
  by (simp add: discover_watchers_def discover_file_def Let_def crash_only_fields
      braced_import_simps demo_stem_simps demo_private_simps braced_crash_def)

lemma crash_only_start:
  "start_watchers crash_only_env (YMap demo_watchers) [braced_crash]
     = (Some ''Replacement index 0 out of range for positional args tuple'', [],
        [InitCalled ''watchers.crash'' (YMap [])])"
  by (simp add: braced_start_module [OF crash_only_fields(5)])

text \<open>
  Claim C9 says that with zero tasks started the Supervisor logs the condition and
  returns. The handler of a start failure (line 130) logs with \<^verbatim>\<open>exc_info=True\<close>, so
  that loguru formats the message: when the text of the error holds a brace, the log
  call raises inside the handler and its error leaves \<^verbatim>\<open>main\<close>. With crash.py as the
  only unit, no task is started, and \<^verbatim>\<open>main\<close> neither logs the condition nor
  returns: it raises, and the process exits with status 1. No notification is sent
  and the notifier is not closed, as the claim says.
\<close>

theorem empty_start_aborted_by_log_call:
  "discover_watchers crash_only_env
     = (Inr [braced_crash], [Log INFO ''Discovered watcher: watchers.crash''])
   \<and> init braced_crash = Some (\<lambda>c. InitRaises ''unexpected config: {}'')
   \<and> started crash_only_env demo_config = []
   \<and> main crash_only_env =
       \<lparr>result = Raised (Error ''Replacement index 0 out of range for positional args tuple''),
        trace = [Log INFO ''AtomicWatcherAquarium starting'',
                 NotifierInit (YMap [(''token'', YStr ''t0'')]),
                 Log INFO ''Discovered watcher: watchers.crash'',
                 InitCalled ''watchers.crash'' (YMap [])],
        left = untouched crash_only_env []\<rparr>
   \<and> entry crash_only_env =
       (Some 1, [Log INFO ''AtomicWatcherAquarium starting'',
                 NotifierInit (YMap [(''token'', YStr ''t0'')]),
                 Log INFO ''Discovered watcher: watchers.crash'',
                 InitCalled ''watchers.crash'' (YMap []),
                 Log ERROR ''Fatal error: Replacement index 0 out of range for positional args tuple''])"
proof -
  note c = crash_only_fields(1) and n = crash_only_fields(2) [of "bind demo_config ''notifier''"]
  have d: "discovered crash_only_env = [braced_crash]"
    by (simp add: discovered_def crash_only_discovered)
  have s: "started crash_only_env demo_config = []"
    and se: "start_error crash_only_env demo_config
      = Some ''Replacement index 0 out of range for positional args tuple''"
    by (simp_all add: started_def start_error_def d demo_bind crash_only_start
        del: start_watchers.simps)
  have ev: "startup_events crash_only_env demo_config =
      [Log INFO ''AtomicWatcherAquarium starting'',
       NotifierInit (YMap [(''token'', YStr ''t0'')]),
       Log INFO ''Discovered watcher: watchers.crash'',
       InitCalled ''watchers.crash'' (YMap [])]"
    by (simp add: startup_events_def d demo_bind crash_only_start crash_only_discovered
        del: start_watchers.simps)
  note m = main_start_aborted [OF c n se, unfolded s ev]
  have en: "entry crash_only_env =
      (Some 1, [Log INFO ''AtomicWatcherAquarium starting'',
                NotifierInit (YMap [(''token'', YStr ''t0'')]),
                Log INFO ''Discovered watcher: watchers.crash'',
                InitCalled ''watchers.crash'' (YMap []),
                Log ERROR ''Fatal error: Replacement index 0 out of range for positional args tuple''])"
    by (simp add: entry_def m close_loop_done untouched_def all_done_def demo_log_simps)
  from crash_only_discovered s m en show ?thesis
    by (simp add: demo_module_simps)
qed

text \<open>
  Claim C2, as amended: in a run whose configuration document is a mapping and whose
  notifier is constructed, when discovery completes and yields no unit, or the start
  loop runs to its end without a task, the condition is logged, no task is ever
  created, and \<^verbatim>\<open>main\<close> returns normally, so that the process exits with status 0.
\<close>

theorem empty_watcher_set_exit_status:
  assumes "config_yaml e = Document (YMap cfg)"
    and "notifier_init e (bind cfg ''notifier'') = None"
    and "discovery_error e = None"
    and "start_error e cfg = None"
    and "started e cfg = []"
  shows "result (main e) = Returned
    \<and> fst (entry e) = Some 0
    \<and> (\<forall>n. TaskCreated n \<notin> set (snd (entry e)))
    \<and> (if discovered e = []
        then Log WARNING ''No watchers found!'' \<in> set (snd (entry e))
        else Log ERROR ''No watcher tasks started!'' \<in> set (snd (entry e)))"
proof -
  note m = main_no_tasks [OF assms]
  have "entry e = (Some 0, trace (main e))"
    by (rule entry_returned) (simp_all add: m)
  then show ?thesis
    by (simp add: m startup_events_no_task [OF assms(4,5)])
qed

theorem empty_watcher_set_exit_status_witness:
  "config_yaml idle_env = Document (YMap demo_config)
   \<and> notifier_init idle_env (bind demo_config ''notifier'') = None
   \<and> discovery_error idle_env = None
   \<and> start_error idle_env demo_config = None
   \<and> started idle_env demo_config = []
   \<and> discovered idle_env = [demo_idle, demo_crash]
   \<and> fst (entry idle_env) = Some 0
   \<and> TaskCreated ''watcher_idle'' \<notin> set (snd (entry idle_env))
   \<and> Log ERROR ''No watcher tasks started!'' \<in> set (snd (entry idle_env))"
proof -
  have c: "config_yaml idle_env = Document (YMap demo_config)"
    and n: "notifier_init idle_env (bind demo_config ''notifier'') = None"
    by (simp_all add: demo_env_simps)
  have d: "discovered idle_env = [demo_idle, demo_crash]"
    and de: "discovery_error idle_env = None"
    by (simp_all add: discovered_def discovery_error_def idle_discovered)
  have s: "started idle_env demo_config = []"
    and se: "start_error idle_env demo_config = None"
    by (simp_all add: started_def start_error_def d demo_bind demo_start_module)
  from empty_watcher_set_exit_status [OF c n de se s] c n de se s d show ?thesis
    by (simp add: demo_idle_def)
qed

text \<open>
  The claim as the specification states it, with a non-zero exit status, fails where
  the watcher directory does not exist: nothing is discovered, the condition is
  logged, and the status is 0.
\<close>

theorem empty_watcher_set_nonzero_exit_counterexample:
  "watchers_dir no_dir_env = None
   \<and> discover_watchers no_dir_env
       = (Inr [], [Log ERROR ''Watchers directory not found: /opt/awa/watchers''])
   \<and> entry no_dir_env =
       (Some 0, [Log INFO ''AtomicWatcherAquarium starting'',
                 NotifierInit (YMap [(''token'', YStr ''t0'')]),
                 Log ERROR ''Watchers directory not found: /opt/awa/watchers'',
                 Log WARNING ''No watchers found!''])"
proof -
  have c: "config_yaml no_dir_env = Document (YMap demo_config)"
    and n: "notifier_init no_dir_env (bind demo_config ''notifier'') = None"
    and w: "watchers_dir no_dir_env = None"
    by (simp_all add: demo_env_simps)
  have d: "discovered no_dir_env = []" and de: "discovery_error no_dir_env = None"
    by (simp_all add: discovered_def discovery_error_def no_dir_discovered)
  have s: "started no_dir_env demo_config = []" and se: "start_error no_dir_env demo_config = None"
    by (simp_all add: started_no_modules start_error_no_modules d)
  note m = main_no_tasks [OF c n de se s]
  have "entry no_dir_env = (Some 0, trace (main no_dir_env))"
    by (rule entry_returned) (simp_all add: m)
  with w no_dir_discovered show ?thesis
    by (simp add: m d startup_events_def demo_bind)
qed

subsection \<open>Missing top-level sections\<close>

lemma bind_fill_missing: "bind (fill_missing cfg) key = bind cfg key"
  by (auto simp: bind_def fill_missing_def split: option.splits)

lemma log_exception_config:
  "log_exception (e\<lparr>config_yaml := c\<rparr>) message = log_exception e message"
  by (simp add: log_exception_def)

lemma discover_file_config: "discover_file (e\<lparr>config_yaml := c\<rparr>) f = discover_file e f"
  by (simp add: discover_file_def Let_def log_exception_config
      cong: import_result.case_cong sum.case_cong)

lemma discover_loop_config: "discover_loop (e\<lparr>config_yaml := c\<rparr>) fs = discover_loop e fs"
  by (induction fs) (simp_all add: discover_file_config cong: prod.case_cong sum.case_cong)

lemma discover_watchers_config: "discover_watchers (e\<lparr>config_yaml := c\<rparr>) = discover_watchers e"
  by (simp add: discover_watchers_def discover_loop_config cong: option.case_cong)

lemma start_failed_config: "start_failed (e\<lparr>config_yaml := c\<rparr>) m msg = start_failed e m msg"
  by (simp add: start_failed_def log_exception_config)

lemma start_module_config: "start_module (e\<lparr>config_yaml := c\<rparr>) wc m = start_module e wc m"
  by (simp add: start_module_def Let_def start_failed_config
      cong: sum.case_cong option.case_cong init_result.case_cong)

lemma start_watchers_config: "start_watchers (e\<lparr>config_yaml := c\<rparr>) wc ms = start_watchers e wc ms"
  by (induction ms) (simp_all add: start_module_config cong: prod.case_cong sum.case_cong)

lemma shutdown_config:
  "shutdown (e\<lparr>config_yaml := c\<rparr>) ts rn sts rest = shutdown e ts rn sts rest"
  by (simp add: shutdown_def cong: prod.case_cong wait_result.case_cong option.case_cong)

lemma supervise_config: "supervise (e\<lparr>config_yaml := c\<rparr>) ts = supervise e ts"
  by (simp add: supervise_def shutdown_config
      cong: prod.case_cong wait_result.case_cong option.case_cong if_cong)

lemma phases_config:
  "discovery_error (e\<lparr>config_yaml := c\<rparr>) = discovery_error e"
  "discovered (e\<lparr>config_yaml := c\<rparr>) = discovered e"
  "start_error (e\<lparr>config_yaml := c\<rparr>) cfg = start_error e cfg"
  "started (e\<lparr>config_yaml := c\<rparr>) cfg = started e cfg"
  "startup_events (e\<lparr>config_yaml := c\<rparr>) cfg = startup_events e cfg"
  "no_tasks (e\<lparr>config_yaml := c\<rparr>) = no_tasks e"
  "untouched (e\<lparr>config_yaml := c\<rparr>) ts = untouched e ts"
  by (simp_all add: discovery_error_def discovered_def start_error_def started_def
      startup_events_def no_tasks_def untouched_def discover_watchers_config
      start_watchers_config)

lemma phases_fill_missing:
  "start_error e (fill_missing cfg) = start_error e cfg"
  "started e (fill_missing cfg) = started e cfg"
  "startup_events e (fill_missing cfg) = startup_events e cfg"
  by (simp_all add: start_error_def started_def startup_events_def bind_fill_missing)

lemma main_fill_missing:
  assumes "config_yaml e = Document (YMap cfg)"
  shows "main e = main (e\<lparr>config_yaml := Document (YMap (fill_missing cfg))\<rparr>)"
proof -
  let ?e' = "e\<lparr>config_yaml := Document (YMap (fill_missing cfg))\<rparr>"
  have c': "config_yaml ?e' = Document (YMap (fill_missing cfg))" by simp
  show ?thesis
  proof (cases "notifier_init e (bind cfg ''notifier'')")
    case (Some msg)
    then have n': "notifier_init ?e' (bind (fill_missing cfg) ''notifier'') = Some msg"
      by (simp add: bind_fill_missing)
    show ?thesis
      by (simp add: main_notifier_fails [OF assms Some] main_notifier_fails [OF c' n']
          bind_fill_missing phases_config)
  next
    case n: None
    then have n': "notifier_init ?e' (bind (fill_missing cfg) ''notifier'') = None"
      by (simp add: bind_fill_missing)
    show ?thesis
    proof (cases "discovery_error e")
      case (Some err)
      then have d': "discovery_error ?e' = Some err"
        by (simp add: phases_config)
      show ?thesis
        by (simp add: main_discovery_aborted [OF assms n Some]
            main_discovery_aborted [OF c' n' d'] bind_fill_missing phases_config
            discover_watchers_config)
    next
      case None
      then have d': "discovery_error ?e' = None"
        by (simp add: phases_config)
      show ?thesis
        by (simp add: main_trace [OF assms n None] main_trace [OF c' n' d']
            phases_config phases_fill_missing supervise_config)
    qed
  qed
qed

lemma main_begins:
  assumes "config_yaml e = Document (YMap cfg)"
  shows "take 2 (trace (main e))
     = [Log INFO ''AtomicWatcherAquarium starting'', NotifierInit (bind cfg ''notifier'')]"
proof (cases "notifier_init e (bind cfg ''notifier'')")
  case (Some msg)
  show ?thesis
    by (simp add: main_notifier_fails [OF assms Some])
next
  case n: None
  show ?thesis
  proof (cases "discovery_error e")
    case (Some err)
    show ?thesis
      by (simp add: main_discovery_aborted [OF assms n Some])
  next
    case None
    show ?thesis
      by (simp add: main_trace [OF assms n None] startup_events_def)
  qed
qed

lemma supervise_not_exited: "fst (supervise e ts) \<noteq> Exited c"
proof (cases "send_raises e")
  case (Some msg)
  then show ?thesis
    by (simp add: supervise_send_raises)
next
  case None
  obtain r rn sts gevs rest
    where g: "gather False ts False Serving (replicate (length ts) Running) (schedule e)
        = (r, rn, sts, gevs, rest)"
    by (metis prod_cases5)
  obtain r2 rn2 sts2 gevs2 rest2
    where g2: "gather True ts False rn (fst (deliver 0 ts sts)) rest = (r2, rn2, sts2, gevs2, rest2)"
    by (metis prod_cases5)
  from cut_short_exited [of e r2 c] show ?thesis
    by (cases r)
       (auto simp: supervise_eq [OF None g shutdown_eq [OF g2]] split: option.splits)
qed

lemma main_not_exited:
  assumes "config_yaml e = Document (YMap cfg)"
  shows "result (main e) \<noteq> Exited c"
proof (cases "notifier_init e (bind cfg ''notifier'')")
  case (Some msg)
  show ?thesis
    by (simp add: main_notifier_fails [OF assms Some])
next
  case n: None
  show ?thesis
  proof (cases "discovery_error e")
    case (Some err)
    show ?thesis
      by (simp add: main_discovery_aborted [OF assms n Some])
  next
    case None
    show ?thesis
      by (simp add: main_trace [OF assms n None] supervise_not_exited)
  qed
qed

text \<open>
  Claim C10, as amended: when the loaded configuration document is a mapping, a run
  is the same as the run on that mapping with an empty mapping put in for each of
  \<^verbatim>\<open>notifier\<close> and \<^verbatim>\<open>watchers\<close> that it lacks. The configuration is accepted:
  the run gets past the lookup of the \<^verbatim>\<open>notifier\<close> section and constructs the
  notifier from it, from the empty mapping when the section is missing; every
  \<^verbatim>\<open>init\<close> that is called receives the empty mapping when the \<^verbatim>\<open>watchers\<close> section
  is missing; and \<^verbatim>\<open>main\<close> does not exit through \<^verbatim>\<open>sys.exit\<close>.
\<close>

theorem missing_sections_default:
  assumes "config_yaml e = Document (YMap cfg)"
  shows "main e = main (e\<lparr>config_yaml := Document (YMap (fill_missing cfg))\<rparr>)
    \<and> map_of (fill_missing cfg) ''notifier'' \<noteq> None
    \<and> map_of (fill_missing cfg) ''watchers'' \<noteq> None
    \<and> (map_of cfg ''notifier'' = None \<longrightarrow> map_of (fill_missing cfg) ''notifier'' = Some (YMap []))
    \<and> (map_of cfg ''watchers'' = None \<longrightarrow> map_of (fill_missing cfg) ''watchers'' = Some (YMap []))
    \<and> take 2 (trace (main e))
        = [Log INFO ''AtomicWatcherAquarium starting'', NotifierInit (bind cfg ''notifier'')]
    \<and> (map_of cfg ''notifier'' = None \<longrightarrow> NotifierInit (YMap []) \<in> set (trace (main e)))
    \<and> (map_of cfg ''watchers'' = None \<longrightarrow>
         (\<forall>n c. InitCalled n c \<in> set (trace (main e)) \<longrightarrow> c = YMap []))
    \<and> (\<forall>c. result (main e) \<noteq> Exited c)"
proof -
  note b = main_begins [OF assms]
  have f: "map_of (fill_missing cfg) ''notifier'' \<noteq> None"
    "map_of (fill_missing cfg) ''watchers'' \<noteq> None"
    "map_of cfg ''notifier'' = None \<longrightarrow> map_of (fill_missing cfg) ''notifier'' = Some (YMap [])"
    "map_of cfg ''watchers'' = None \<longrightarrow> map_of (fill_missing cfg) ''watchers'' = Some (YMap [])"
    by (auto simp: fill_missing_def)
  have ni: "NotifierInit (YMap []) \<in> set (trace (main e))" if "map_of cfg ''notifier'' = None"
  proof -
    from that b have "take 2 (trace (main e))
        = [Log INFO ''AtomicWatcherAquarium starting'', NotifierInit (YMap [])]"
      by (simp add: bind_def)
    then have "NotifierInit (YMap []) \<in> set (take 2 (trace (main e)))"
      by simp
    then show ?thesis
      by (rule in_set_takeD)
  qed
  have ic: "c = YMap []"
    if w: "map_of cfg ''watchers'' = None" and i: "InitCalled n c \<in> set (trace (main e))" for n c
  proof -
    from w have "bind cfg ''watchers'' = YMap []"
      by (simp add: bind_def)
    from main_init_called [OF assms this]
    obtain k where "filter is_init_called (trace (main e))
        = map (\<lambda>m. InitCalled (mod_name m) (bind [] (unit_name m))) (take k (discovered e))"
      by auto
    moreover from i have "InitCalled n c \<in> set (filter is_init_called (trace (main e)))"
      by simp
    ultimately show ?thesis
      by (auto simp: bind_def)
  qed
  from main_fill_missing [OF assms] f b ni ic main_not_exited [OF assms] show ?thesis
    by blast
qed

theorem missing_sections_default_witness:
  "config_yaml blank_env = Document (YMap [])
   \<and> map_of [] ''notifier'' = (None :: yaml option)
   \<and> map_of [] ''watchers'' = (None :: yaml option)
   \<and> main blank_env
      = main (blank_env\<lparr>config_yaml :=
                Document (YMap [(''notifier'', YMap []), (''watchers'', YMap [])])\<rparr>)
   \<and> NotifierInit (YMap []) \<in> set (trace (main blank_env))
   \<and> InitCalled ''watchers.mail'' (YMap []) \<in> set (trace (main blank_env))
   \<and> InitCalled ''watchers.mail'' (YMap [(''host'', YStr ''imap.example.org'')])
       \<notin> set (trace (main blank_env))"
proof -
  have c: "config_yaml blank_env = Document (YMap [])"
    by (simp add: blank_env_def demo_env_def)
  have n: "notifier_init blank_env (bind [] ''notifier'') = None"
    by (simp add: blank_env_def demo_env_def)
  have d: "discover_watchers blank_env = discover_watchers demo_env"
    by (simp add: blank_env_def discover_watchers_config)
  have de: "discovery_error blank_env = None"
    and ds: "discovered blank_env = [demo_mail, demo_disk, demo_idle, demo_crash]"
    by (simp_all add: discovery_error_def discovered_def d demo_discovered)
  have m: "InitCalled ''watchers.mail'' (YMap []) \<in> set (startup_events blank_env [])"
    by (simp add: startup_events_def ds bind_def start_module_def start_failed_def
        demo_unit_name_simps demo_module_simps demo_log_simps Let_def)
  have i: "InitCalled ''watchers.mail'' (YMap []) \<in> set (trace (main blank_env))"
    using m by (simp add: main_trace [OF c n de])
  note t = missing_sections_default [OF c]
  from t have "main blank_env
      = main (blank_env\<lparr>config_yaml := Document (YMap (fill_missing []))\<rparr>)"
    by blast
  moreover from t
  have "map_of [] ''notifier'' = (None :: yaml option)
      \<longrightarrow> NotifierInit (YMap []) \<in> set (trace (main blank_env))"
    by blast
  then have "NotifierInit (YMap []) \<in> set (trace (main blank_env))"
    by simp
  moreover from t
  have "map_of [] ''watchers'' = (None :: yaml option)
      \<longrightarrow> (\<forall>n c. InitCalled n c \<in> set (trace (main blank_env)) \<longrightarrow> c = YMap [])"
    by blast
  then have "\<forall>n c. InitCalled n c \<in> set (trace (main blank_env)) \<longrightarrow> c = YMap []"
    by simp
  then have "InitCalled ''watchers.mail'' (YMap [(''host'', YStr ''imap.example.org'')])
      \<notin> set (trace (main blank_env))"
    by blast
  ultimately show ?thesis
    using c i by (simp add: fill_missing_def)
qed

text \<open>
  The claim as stated takes in a configuration file with neither section; the empty
  file is one, it loads as the null document, and there \<^verbatim>\<open>config.get\<close> raises:
  the run ends before the notifier is constructed and the process exits with status 1.
\<close>

theorem null_document_counterexample:
  "config_yaml null_env = Document YNull
   \<and> result (main null_env)
       = Raised (Error ([CHR 0x27] @ ''NoneType'' @ [CHR 0x27] @ '' object has no attribute ''
                        @ [CHR 0x27] @ ''get'' @ [CHR 0x27]))
   \<and> trace (main null_env) = [Log INFO ''AtomicWatcherAquarium starting'']
   \<and> fst (entry null_env) = Some 1"
proof -
  have c: "config_yaml null_env = Document YNull" and s: "schedule null_env = []"
    by (simp_all add: null_env_def demo_env_def)
  have m: "main null_env =
      \<lparr>result = Raised (Error ([CHR 0x27] @ ''NoneType'' @ [CHR 0x27]
                  @ '' object has no attribute '' @ [CHR 0x27] @ ''get'' @ [CHR 0x27])),
       trace = [Log INFO ''AtomicWatcherAquarium starting''],
       left = no_tasks null_env\<rparr>"
    by (simp add: main_def c)
  have "fst (entry null_env) = Some 1"
    by (simp add: entry_def m close_loop_done no_tasks_def all_done_def log_exception_def
        has_brace_def)
  with c m show ?thesis
    by simp
qed

subsection \<open>How many tasks are created\<close>



lemma start_module_count:
  "fst (start_module e wc m) = Inr ts \<Longrightarrow>
   length ts + (if start_raises wc m then 1 else 0)
     + (if returns_nothing wc m then 1 else 0) = (1::nat)"
  by (auto simp: start_module_def start_raises_def returns_nothing_def Let_def
      case_prod_beta start_failed_def
      split: sum.splits option.splits init_result.splits)

lemma start_module_names:
  "fst (start_module e wc m) = Inr ts \<Longrightarrow>
   map task_name ts = (if starts wc m then [''watcher_'' @ unit_name m] else [])"
  by (auto simp: start_module_def starts_def start_raises_def returns_nothing_def Let_def
      case_prod_beta start_failed_def
      split: sum.splits option.splits init_result.splits)

lemma start_failed_logged:
  assumes "fst (start_failed e m msg) = Inr ts"
  shows "\<exists>text. log_exception e (''Failed to initialize '' @ mod_name m @ '': '' @ msg)
       = Inr (Log ERROR text)
     \<and> snd (start_failed e m msg) = [Log ERROR text]"
proof (cases "log_exception e (''Failed to initialize '' @ mod_name m @ '': '' @ msg)")
  case (Inl err)
  with assms show ?thesis
    by (simp add: start_failed_def)
next
  case (Inr logged)
  from log_exception_logged [OF Inr] obtain line where "logged = Log ERROR line"
    by blast
  with Inr show ?thesis
    by (simp add: start_failed_def)
qed

lemma start_module_failure_logged:
  assumes "fst (start_module e wc m) = Inr ts" and "start_raises wc m"
  shows "\<exists>msg text. log_exception e (''Failed to initialize '' @ mod_name m @ '': '' @ msg)
       = Inr (Log ERROR text)
     \<and> Log ERROR text \<in> set (snd (start_module e wc m))"
proof -
  from assms obtain msg where
    m: "fst (start_failed e m msg) = Inr ts"
      "set (snd (start_failed e m msg)) \<subseteq> set (snd (start_module e wc m))"
    by (auto simp: start_module_def start_raises_def Let_def case_prod_beta
        split: sum.splits option.splits init_result.splits)
  from start_failed_logged [OF m(1)] obtain line
    where l: "log_exception e (''Failed to initialize '' @ mod_name m @ '': '' @ msg)
        = Inr (Log ERROR line)"
      "snd (start_failed e m msg) = [Log ERROR line]"
    by blast
  with m(2) have "Log ERROR line \<in> set (snd (start_module e wc m))"
    by simp
  with l(1) show ?thesis
    by blast
qed

lemma start_watchers_completed:
  assumes "start_watchers e wc ms = (None, ts, sevs)"
  shows "length ts + length (filter (start_raises wc) ms)
       + length (filter (returns_nothing wc) ms) = length ms
    \<and> map task_name ts = map (\<lambda>m. ''watcher_'' @ unit_name m) (filter (starts wc) ms)
    \<and> (\<forall>m\<in>set ms. start_raises wc m \<longrightarrow>
         (\<exists>msg text. log_exception e (''Failed to initialize '' @ mod_name m @ '': '' @ msg)
             = Inr (Log ERROR text)
           \<and> Log ERROR text \<in> set sevs))"
  using assms
proof (induction ms arbitrary: ts sevs)
  case Nil
  then show ?case by simp
next
  case (Cons m ms)
  obtain r1 evs1 where d: "start_module e wc m = (r1, evs1)"
    by (metis surj_pair)
  obtain r2 ts2 evs2 where l: "start_watchers e wc ms = (r2, ts2, evs2)"
    by (metis prod_cases3)
  from Cons.prems d l obtain ts1 where r: "r1 = Inr ts1" "r2 = None" "ts = ts1 @ ts2"
    "sevs = evs1 @ evs2"
    by (auto split: sum.splits)
  note ih = Cons.IH [OF l [unfolded r(2)]]
  from d r(1) have f: "fst (start_module e wc m) = Inr ts1" by simp
  note c = start_module_count [OF f] and n = start_module_names [OF f]
  have lg: "\<exists>msg text. log_exception e (''Failed to initialize '' @ mod_name m @ '': '' @ msg)
        = Inr (Log ERROR text) \<and> Log ERROR text \<in> set evs1" if "start_raises wc m"
    using start_module_failure_logged [OF f that] d by simp
  have c1: "length ts + length (filter (start_raises wc) (m # ms))
      + length (filter (returns_nothing wc) (m # ms)) = length (m # ms)"
    using ih c r(3) by (simp split: if_splits)
  have c2: "map task_name ts
      = map (\<lambda>m. ''watcher_'' @ unit_name m) (filter (starts wc) (m # ms))"
    using ih n r(3) by simp
  have c3: "\<exists>msg text. log_exception e (''Failed to initialize '' @ mod_name x @ '': '' @ msg)
        = Inr (Log ERROR text) \<and> Log ERROR text \<in> set sevs"
    if x: "x \<in> set (m # ms)" and sr: "start_raises wc x" for x
  proof (cases "x = m")
    case True
    with lg sr r(4) show ?thesis by auto
  next
    case False
    with x have "x \<in> set ms" by simp
    with ih sr obtain msg line
      where "log_exception e (''Failed to initialize '' @ mod_name x @ '': '' @ msg)
          = Inr (Log ERROR line)" "Log ERROR line \<in> set evs2"
      by blast
    with r(4) show ?thesis by auto
  qed
  from c1 c2 c3 show ?case
    by blast
qed




section \<open>Claims about the supervisor phase\<close>

subsection \<open>Runs of the example installation\<close>





lemmas run_env_simps = interrupt_env_def crash_env_def late_crash_env_def send_fails_env_def

lemma run_env_config:
  "config_yaml interrupt_env = Document (YMap demo_config)"
  "config_yaml crash_env = Document (YMap demo_config)"
  "config_yaml late_crash_env = Document (YMap demo_config)"
  "config_yaml send_fails_env = Document (YMap demo_config)"
  "config_yaml refused_env = Document (YMap demo_config)"
  "config_yaml prefixed_env = Document (YMap demo_config)"
  by (simp_all add: run_env_simps refused_env_def prefixed_env_def demo_env_def)

lemma run_env_notifier:
  "notifier_init interrupt_env c = None"
  "notifier_init crash_env c = None"
  "notifier_init late_crash_env c = None"
  "notifier_init send_fails_env c = None"
  "notifier_init refused_env c = None"
  "notifier_init prefixed_env c = None"
  by (simp_all add: run_env_simps refused_env_def prefixed_env_def demo_env_def)






subsection \<open>The process entry after main has ended\<close>


text \<open>
  An error that leaves \<^verbatim>\<open>main\<close> while \<^verbatim>\<open>asyncio.run\<close> has seen no interrupt, and
  that leaves no task running once the pending ones are cancelled: the process exits
  with status 1, and the handler's log line follows when its log call does not raise.
\<close>

lemma entry_error:
  assumes "result (main e) = Raised (Error msg)"
    and "runner_state (left (main e)) = Serving"
    and "close_loop (left (main e)) = (WaitReturned, cevs)"
  shows "entry e =
     (Some 1, trace (main e) @ cevs
        @ (case log_exception e (''Fatal error: '' @ msg) of
             Inl err \<Rightarrow> [] | Inr logged \<Rightarrow> [logged]))"
  using assms by (simp add: entry_def Let_def split: sum.splits)



subsection \<open>Closing the notifier\<close>






subsection \<open>A startup notification that raises\<close>







subsection \<open>A task that raises during the wait\<close>








subsection \<open>The startup notification\<close>

text \<open>
  The notification is sent after the start loop and before the wait, and its text is the
  heading followed by one bullet per entry of \<^verbatim>\<open>active_watchers\<close>.
\<close>

lemma startup_notification_order:
  assumes "config_yaml e = Document (YMap cfg)"
    and "notifier_init e (bind cfg ''notifier'') = None"
    and "start_error e cfg = None"
    and "started e cfg \<noteq> []"
    and "send_raises e = None"
  shows "\<exists>tail. trace (main e) =
      startup_events e cfg
      @ [Log INFO (''Running '' @ str_nat (length (started e cfg)) @ '' watcher(s)...''),
         Log INFO ''Press Ctrl+C to stop...'',
         Send (startup_heading
               @ join [CHR 0x0A] (map bullet (active_watchers (started e cfg)))),
         Log INFO ''Startup notification sent'',
         AwaitGather]
      @ tail"
proof -
  let ?ts = "started e cfg"
  obtain r rn sts gevs rest
    where g: "gather False ?ts False Serving (replicate (length ?ts) Running) (schedule e)
        = (r, rn, sts, gevs, rest)"
    by (metis prod_cases5)
  obtain fr fevs lp where f: "shutdown e ?ts rn sts rest = (fr, fevs, lp)"
    by (metis prod_cases3)
  show ?thesis
    by (simp add: main_supervise [OF assms(1-4)] supervise_eq [OF assms(5) g f]
        waiting_def announce_def startup_markdown_def)
qed

text \<open>
  The names in the notification are the names of the started units when none of them
  contains the text \<^verbatim>\<open>watcher_\<close>.
\<close>

lemma replace_from_absent:
  "\<not> contains s old \<Longrightarrow> replace_from old new 0 s = s"
  by (induction s) simp_all

lemma replace_from_skip:
  "length ys = k \<Longrightarrow> replace_from old new k (ys @ s) = replace_from old new 0 s"
  by (induction ys arbitrary: k) auto

lemma replace_prefix_once:
  assumes "old \<noteq> []" and "\<not> contains s old"
  shows "replace (old @ s) old [] = s"
proof -
  from assms(1) obtain x xs where old: "old = x # xs"
    by (cases old) auto
  have "startswith (x # xs @ s) (x # xs)"
    by (simp add: startswith_def)
  then have "replace_from (x # xs) [] 0 (x # xs @ s) = replace_from (x # xs) [] (length xs) (xs @ s)"
    by simp
  also have "\<dots> = replace_from (x # xs) [] 0 s"
    by (simp add: replace_from_skip)
  also from assms(2) old have "\<dots> = s"
    by (simp add: replace_from_absent)
  finally show ?thesis
    by (simp add: replace_def old)
qed

lemma active_watchers_names:
  assumes "start_watchers e wc ms = (None, ts, sevs)"
    and "\<forall>m\<in>set ms. starts wc m \<longrightarrow> \<not> contains (unit_name m) ''watcher_''"
  shows "active_watchers ts = map unit_name (filter (starts wc) ms)"
proof -
  from start_watchers_completed [OF assms(1)]
  have n: "map task_name ts = map (\<lambda>m. ''watcher_'' @ unit_name m) (filter (starts wc) ms)"
    by blast
  have "active_watchers ts = map (\<lambda>n. replace n ''watcher_'' []) (map task_name ts)"
    by (simp add: active_watchers_def)
  also have "\<dots> = map (\<lambda>m. replace (''watcher_'' @ unit_name m) ''watcher_'' [])
      (filter (starts wc) ms)"
    by (simp add: n)
  also from assms(2) have "\<dots> = map unit_name (filter (starts wc) ms)"
    by (intro map_cong refl replace_prefix_once) auto
  finally show ?thesis .
qed

text \<open>The installation whose only watcher file is \<^verbatim>\<open>watcher_disk.py\<close>.\<close>

lemma prefixed_discovered:
  "discover_watchers prefixed_env
     = (Inr [\<lparr>mod_name = ''watchers.watcher_disk'', init = Some (\<lambda>c. InitCoro Unwinds)\<rparr>],
        [Log INFO ''Discovered watcher: watchers.watcher_disk''])"
  by (simp add: prefixed_env_def demo_env_def demo_eval)

lemma prefixed_start:
  "start_module e (YMap demo_watchers)
       \<lparr>mod_name = ''watchers.watcher_disk'', init = Some (\<lambda>c. InitCoro Unwinds)\<rparr>
     = (Inr [\<lparr>task_name = ''watcher_watcher_disk'', on_cancel = Unwinds\<rparr>],
        [InitCalled ''watchers.watcher_disk'' (YMap []),
         TaskCreated ''watcher_watcher_disk'',
         Log INFO ''Started watcher: watcher_disk''])"
  by (simp add: start_module_def unit_name_def demo_watchers_def Let_def)

lemma prefixed_started:
  "started prefixed_env demo_config
     = [\<lparr>task_name = ''watcher_watcher_disk'', on_cancel = Unwinds\<rparr>]"
  "start_error prefixed_env demo_config = None"
  by (simp_all add: started_def start_error_def discovered_def demo_bind prefixed_discovered
      prefixed_start)

lemma prefixed_active:
  "active_watchers [\<lparr>task_name = ''watcher_watcher_disk'', on_cancel = Unwinds\<rparr>] = [''disk'']"
  by (simp add: active_watchers_def replace_def startswith_def)

text \<open>
  Claim C4 says that the notification lists exactly the names of the started units.
  The program recovers the names from the task names with
  \<^verbatim>\<open>replace("watcher_", "")\<close>, which removes every occurrence and not only the
  prefix that task creation added: for the unit \<^verbatim>\<open>watcher_disk\<close> the start is
  logged under the unit's name and the notification lists \<^verbatim>\<open>disk\<close>.
\<close>

theorem startup_notification_mangles_name:
  "fst (discover_watchers prefixed_env)
     = Inr [\<lparr>mod_name = ''watchers.watcher_disk'', init = Some (\<lambda>c. InitCoro Unwinds)\<rparr>]
   \<and> TaskCreated ''watcher_watcher_disk'' \<in> set (trace (main prefixed_env))
   \<and> Log INFO ''Started watcher: watcher_disk'' \<in> set (trace (main prefixed_env))
   \<and> Send (startup_heading @ ''- '' @ [CHR 0x60] @ ''disk'' @ [CHR 0x60])
       \<in> set (trace (main prefixed_env))
   \<and> Send (startup_heading @ ''- '' @ [CHR 0x60] @ ''watcher_disk'' @ [CHR 0x60])
       \<notin> set (trace (main prefixed_env))"
proof -
  note c = run_env_config(6) and n = run_env_notifier(6) [of "bind demo_config ''notifier''"]
  note se = prefixed_started(2)
  let ?ts = "[\<lparr>task_name = ''watcher_watcher_disk'', on_cancel = Unwinds\<rparr>]"
  have s: "started prefixed_env demo_config \<noteq> []"
    by (simp add: prefixed_started)
  have q: "send_raises prefixed_env = None" and w: "schedule prefixed_env = []"
    by (simp_all add: prefixed_env_def demo_env_def)
  have r: "fst (snd (supervise prefixed_env ?ts)) = waiting ?ts"
    by (simp add: supervise_def q w waiting_def all_done_def)
  have ev: "startup_events prefixed_env demo_config
      = [Log INFO ''AtomicWatcherAquarium starting'', NotifierInit (YMap [(''token'', YStr ''t0'')]),
         Log INFO ''Discovered watcher: watchers.watcher_disk'',
         InitCalled ''watchers.watcher_disk'' (YMap []),
         TaskCreated ''watcher_watcher_disk'',
         Log INFO ''Started watcher: watcher_disk'']"
    by (simp add: startup_events_def discovered_def demo_bind prefixed_discovered prefixed_start)
  have a: "announce ?ts =
      [Log INFO (''Running '' @ str_nat 1 @ '' watcher(s)...''),
       Log INFO ''Press Ctrl+C to stop...'',
       Send (startup_heading @ ''- '' @ [CHR 0x60] @ ''disk'' @ [CHR 0x60])]"
    by (simp add: announce_def startup_markdown_def prefixed_active bullet_def)
  have m: "trace (main prefixed_env) = startup_events prefixed_env demo_config @ waiting ?ts"
    using main_supervise [OF c n se s] by (simp add: prefixed_started r)
  show ?thesis
    by (simp add: prefixed_discovered m ev waiting_def a)
qed

subsection \<open>A start loop that is cut short\<close>

text \<open>
  The handler of a start failure logs with \<^verbatim>\<open>exc_info=True\<close> (line 130). When the
  text it logs holds a brace, the log call raises and the start loop ends there. With
  crash.py before mail.py, mail.py is never started. With mail.py before crash.py,
  the task of mail.py has been created: \<^verbatim>\<open>main\<close> raises without waiting and without
  closing the notifier, \<^verbatim>\<open>asyncio.run\<close> cancels the task, and the process exits with
  status 1.
\<close>

lemma crash_pair_fields:
  "config_yaml crash_first_env = Document (YMap demo_config)"
  "notifier_init crash_first_env c = None"
  "str_format crash_first_env = demo_format"
  "config_yaml crash_last_env = Document (YMap demo_config)"
  "notifier_init crash_last_env c = None"
  "str_format crash_last_env = demo_format"
  by (simp_all add: crash_first_env_def crash_last_env_def demo_env_def)

lemma crash_pair_discovered:
  "discover_watchers crash_first_env
     = (Inr [braced_crash, demo_mail],
        [Log INFO ''Discovered watcher: watchers.crash'',
         Log INFO ''Discovered watcher: watchers.mail''])"
  "discover_watchers crash_last_env
     = (Inr [demo_mail, braced_crash],
        [Log INFO ''Discovered watcher: watchers.mail'',
         Log INFO ''Discovered watcher: watchers.crash''])"
  by (simp_all add: crash_first_env_def crash_last_env_def demo_env_def discover_watchers_def
      discover_file_def Let_def braced_import_simps demo_stem_simps demo_private_simps
      braced_crash_def demo_mail_def)

lemma start_loop_cut_short_first:
  "start_watchers crash_first_env (YMap demo_watchers) [braced_crash, demo_mail]
     = (Some ''Replacement index 0 out of range for positional args tuple'', [],
        [InitCalled ''watchers.crash'' (YMap [])])"
  "started crash_first_env demo_config = []"
  "TaskCreated ''watcher_mail'' \<notin> set (trace (main crash_first_env))"
proof -
  note c = crash_pair_fields(1) and n = crash_pair_fields(2) [of "bind demo_config ''notifier''"]
  show s: "start_watchers crash_first_env (YMap demo_watchers) [braced_crash, demo_mail]
     = (Some ''Replacement index 0 out of range for positional args tuple'', [],
        [InitCalled ''watchers.crash'' (YMap [])])"
    by (simp add: braced_start_module [OF crash_pair_fields(3)])
  have d: "discovered crash_first_env = [braced_crash, demo_mail]"
    by (simp add: discovered_def crash_pair_discovered)
  have se: "start_error crash_first_env demo_config
      = Some ''Replacement index 0 out of range for positional args tuple''"
    by (simp add: start_error_def d demo_bind s del: start_watchers.simps)
  show "started crash_first_env demo_config = []"
    by (simp add: started_def d demo_bind s del: start_watchers.simps)
  show "TaskCreated ''watcher_mail'' \<notin> set (trace (main crash_first_env))"
    by (simp add: main_start_aborted [OF c n se] startup_events_def d demo_bind s
        crash_pair_discovered del: start_watchers.simps)
qed

lemma start_loop_cut_short_last:
  "main crash_last_env =
     \<lparr>result = Raised (Error ''Replacement index 0 out of range for positional args tuple''),
      trace = [Log INFO ''AtomicWatcherAquarium starting'',
               NotifierInit (YMap [(''token'', YStr ''t0'')]),
               Log INFO ''Discovered watcher: watchers.mail'',
               Log INFO ''Discovered watcher: watchers.crash'',
               InitCalled ''watchers.mail'' (YMap [(''host'', YStr ''imap.example.org'')]),
               TaskCreated ''watcher_mail'', Log INFO ''Started watcher: mail'',
               InitCalled ''watchers.crash'' (YMap [])],
      left = untouched crash_last_env [\<lparr>task_name = ''watcher_mail'', on_cancel = Unwinds\<rparr>]\<rparr>"
  "entry crash_last_env =
     (Some 1, trace (main crash_last_env)
        @ [TaskDone 0 Cancelled,
           Log ERROR ''Fatal error: Replacement index 0 out of range for positional args tuple''])"
proof -
  note c = crash_pair_fields(4) and n = crash_pair_fields(5) [of "bind demo_config ''notifier''"]
  have s: "start_watchers crash_last_env (YMap demo_watchers) [demo_mail, braced_crash]
     = (Some ''Replacement index 0 out of range for positional args tuple'',
        [\<lparr>task_name = ''watcher_mail'', on_cancel = Unwinds\<rparr>],
        [InitCalled ''watchers.mail'' (YMap [(''host'', YStr ''imap.example.org'')]),
         TaskCreated ''watcher_mail'', Log INFO ''Started watcher: mail'',
         InitCalled ''watchers.crash'' (YMap [])])"
    by (simp add: demo_start_module braced_start_module [OF crash_pair_fields(6)])
  have d: "discovered crash_last_env = [demo_mail, braced_crash]"
    by (simp add: discovered_def crash_pair_discovered)
  have se: "start_error crash_last_env demo_config
      = Some ''Replacement index 0 out of range for positional args tuple''"
    by (simp add: start_error_def d demo_bind s del: start_watchers.simps)
  have st: "started crash_last_env demo_config
      = [\<lparr>task_name = ''watcher_mail'', on_cancel = Unwinds\<rparr>]"
    by (simp add: started_def d demo_bind s del: start_watchers.simps)
  show m: "main crash_last_env =
     \<lparr>result = Raised (Error ''Replacement index 0 out of range for positional args tuple''),
      trace = [Log INFO ''AtomicWatcherAquarium starting'',
               NotifierInit (YMap [(''token'', YStr ''t0'')]),
               Log INFO ''Discovered watcher: watchers.mail'',
               Log INFO ''Discovered watcher: watchers.crash'',
               InitCalled ''watchers.mail'' (YMap [(''host'', YStr ''imap.example.org'')]),
               TaskCreated ''watcher_mail'', Log INFO ''Started watcher: mail'',
               InitCalled ''watchers.crash'' (YMap [])],
      left = untouched crash_last_env [\<lparr>task_name = ''watcher_mail'', on_cancel = Unwinds\<rparr>]\<rparr>"
    by (simp add: main_start_aborted [OF c n se] st startup_events_def d demo_bind s
        crash_pair_discovered del: start_watchers.simps)
  have r: "result (main crash_last_env)
      = Raised (Error ''Replacement index 0 out of range for positional args tuple'')"
    and rs: "runner_state (left (main crash_last_env)) = Serving"
    and l: "close_loop (left (main crash_last_env)) = (WaitReturned, [TaskDone 0 Cancelled])"
    by (simp_all add: m untouched_def close_loop_def gather_all_done all_done_def)
  show "entry crash_last_env =
     (Some 1, trace (main crash_last_env)
        @ [TaskDone 0 Cancelled,
           Log ERROR ''Fatal error: Replacement index 0 out of range for positional args tuple''])"
    by (simp add: entry_error [OF r rs l] demo_log_simps)
qed
end
